theory Spec2Isabelle
  imports Complex_Main
begin

section \<open>Python arithmetic\<close>

text \<open>
  The simulation computes with Python floats. They are modelled as real numbers with
  exact arithmetic; integers stay integers. The operators below are the Python ones the
  lander code uses, written out on the reals.

  One rounding step is kept: the float remainder \<open>a % m\<close>. CPython computes it as the C
  \<open>fmod\<close>, which is exact and takes the sign of \<open>a\<close>, and, when that remainder is not zero
  and its sign differs from the sign of \<open>m\<close>, adds \<open>m\<close> to it in double precision. The
  rounding of that sum decides whether the result stays below \<open>m\<close>, so the sum is rounded
  to the nearest double here as well.
\<close>

datatype py_error = IndexError | ZeroDivisionError

definition py_int :: "real \<Rightarrow> int" where
  \<comment> \<open>\<open>int(r)\<close>: truncation towards zero.\<close>
  "py_int r = (if 0 \<le> r then \<lfloor>r\<rfloor> else \<lceil>r\<rceil>)"

definition round_half_even :: "real \<Rightarrow> int" where
  \<comment> \<open>The nearest integer, a tie going to the even neighbour.\<close>
  "round_half_even y =
     (let f = \<lfloor>y\<rfloor>; d = y - of_int f
      in if d < 1 / 2 then f
         else if 1 / 2 < d then f + 1
         else if even f then f else f + 1)"

definition double_round :: "real \<Rightarrow> real" where
  \<comment> \<open>The nearest IEEE 754 double, ties to even: 53 significant bits, so the doubles
      from \<open>2 ^ e\<close> up to \<open>2 ^ (e + 1)\<close> are \<open>2 ^ (e - 52)\<close> apart, and those below
      \<open>2 ^ -1022\<close> are \<open>2 ^ -1074\<close> apart. Overflow to infinity is left out: no sum formed
      by \<open>%\<close> exceeds twice the divisor.\<close>
  "double_round v =
     (if v = 0 then 0
      else let e = max \<lfloor>log 2 \<bar>v\<bar>\<rfloor> (- 1022);
               q = 2 powr (of_int e - 52)
           in q * of_int (round_half_even (v / q)))"

definition py_fmod :: "real \<Rightarrow> real \<Rightarrow> real" where
  \<comment> \<open>C \<open>fmod(a, m)\<close>: \<open>a\<close> minus \<open>m\<close> times the truncated quotient, computed exactly.\<close>
  "py_fmod a m = a - m * of_int (py_int (a / m))"

definition py_mod :: "real \<Rightarrow> real \<Rightarrow> real" where
  \<comment> \<open>\<open>a % m\<close> on floats (\<open>float_rem\<close> of CPython): the result takes the sign of the
      divisor; the correcting sum is a double.\<close>
  "py_mod a m =
     (let r = py_fmod a m
      in if r = 0 then 0
         else if (m < 0) \<noteq> (r < 0) then double_round (r + m)
         else r)"

definition py_floordiv :: "real \<Rightarrow> real \<Rightarrow> real" where
  \<comment> \<open>\<open>a // b\<close> on floats.\<close>
  "py_floordiv a b = of_int \<lfloor>a / b\<rfloor>"

definition py_round :: "real \<Rightarrow> nat \<Rightarrow> real" where
  \<comment> \<open>\<open>round(r, n)\<close>: to \<open>n\<close> decimals, a tie going to the even neighbour.\<close>
  "py_round r n =
     (let y = r * 10 ^ n; f = \<lfloor>y\<rfloor>; d = y - of_int f
      in (if d < 1 / 2 then of_int f
          else if 1 / 2 < d then of_int f + 1
          else if even f then of_int f else of_int f + 1) / 10 ^ n)"

definition py_get :: "'a list \<Rightarrow> int \<Rightarrow> py_error + 'a" where
  \<comment> \<open>\<open>xs[i]\<close>: an index from \<open>-len(xs)\<close> up to \<open>-1\<close> counts from the end; outside
      \<open>-len(xs) .. len(xs) - 1\<close> Python raises.\<close>
  "py_get xs i =
     (if 0 \<le> i \<and> i < int (length xs) then Inr (xs ! nat i)
      else if - int (length xs) \<le> i \<and> i < 0 then Inr (xs ! nat (int (length xs) + i))
      else Inl IndexError)"

definition hypot :: "real \<Rightarrow> real \<Rightarrow> real" where
  "hypot a b = sqrt (a\<^sup>2 + b\<^sup>2)"

definition radians :: "real \<Rightarrow> real" where
  "radians d = d * pi / 180"

definition degrees :: "real \<Rightarrow> real" where
  "degrees r = r * 180 / pi"

definition atan2 :: "real \<Rightarrow> real \<Rightarrow> real" where
  \<comment> \<open>\<open>math.atan2(y, x)\<close>, the angle of the point \<open>(x, y)\<close> in \<open>(-pi, pi]\<close>.\<close>
  "atan2 y x =
     (if 0 < x then arctan (y / x)
      else if x < 0 then (if 0 \<le> y then arctan (y / x) + pi else arctan (y / x) - pi)
      else if 0 < y then pi / 2
      else if y < 0 then - (pi / 2)
      else 0)"

definition angle_diff :: "real \<Rightarrow> real \<Rightarrow> real" where
  \<comment> \<open>\<open>_angle_diff(target, source)\<close> of the lander module.\<close>
  "angle_diff target source = py_mod (target - source + 180) 360 - 180"

section \<open>Configuration\<close>

definition SCREEN_SIZE :: int where "SCREEN_SIZE = 1000"
definition PIXEL_SIZE :: int where "PIXEL_SIZE = 8"
definition TERRAIN_LENGTH :: int where "TERRAIN_LENGTH = 15000"
definition FUEL_START :: real where "FUEL_START = 2000"
definition ROTATION_SPEED :: real where "ROTATION_SPEED = 90"
definition DRY_MASS :: real where "DRY_MASS = 13000"
definition ISP :: real where "ISP = 311"
definition G0_MOON :: real where "G0_MOON = 162 / 100"
definition MAX_THRUST :: real where "MAX_THRUST = 45000"
definition ANGULAR_INERTIA :: real where "ANGULAR_INERTIA = 2"
definition ROTATION_TORQUE :: real where "ROTATION_TORQUE = 250"
definition LANDER_VX_ENTRY :: real where "LANDER_VX_ENTRY = 10"
definition ENGINE_STARTUP_LIMIT :: int where "ENGINE_STARTUP_LIMIT = 5"
definition lander_angular_velocity :: real where "lander_angular_velocity = 0"
definition LANDER_HEIGHT_M :: real where "LANDER_HEIGHT_M = 7"
definition TIME_SCALE :: real where "TIME_SCALE = 1"
definition MAX_LANDING_ANGLE :: real where "MAX_LANDING_ANGLE = 20"
definition LAND_DAMAGE_SPEED :: real where "LAND_DAMAGE_SPEED = 10"
definition MAX_OXYGEN :: real where "MAX_OXYGEN = 100"
definition MAX_BATTERY :: real where "MAX_BATTERY = 100"
definition MAX_TEMPERATURE :: real where "MAX_TEMPERATURE = 120"
definition OXYGEN_DRAIN_RATE :: real where "OXYGEN_DRAIN_RATE = 15 / 10"
definition BATTERY_DRAIN_RATE :: real where "BATTERY_DRAIN_RATE = 5"
definition APU_FUEL_RATE :: real where "APU_FUEL_RATE = 2"
definition APU_RECHARGE_RATE :: real where "APU_RECHARGE_RATE = 10"

section \<open>The surface sensor\<close>

definition terrain_height_at :: "int list \<Rightarrow> real \<Rightarrow> py_error + real" where
  \<comment> \<open>\<open>SurfaceSensor._terrain_height_at\<close>; the terrain is its height samples \<open>topo\<close>.\<close>
  "terrain_height_at topo x_world =
     (let pix_per_step = of_int PIXEL_SIZE;
          idx_float = x_world / pix_per_step;
          left_i = \<lfloor>idx_float\<rfloor>;
          right_i = \<lceil>idx_float\<rceil>;
          max_i = int (length topo) - 1;
          left_i_clamped = max 0 (min left_i max_i);
          right_i_clamped = max 0 (min right_i max_i)
      in case py_get topo left_i_clamped of
           Inl e \<Rightarrow> Inl e
         | Inr y_left \<Rightarrow>
            (case py_get topo right_i_clamped of
               Inl e \<Rightarrow> Inl e
             | Inr y_right \<Rightarrow>
                 if left_i_clamped = right_i_clamped then Inr (of_int y_left)
                 else let t = idx_float - of_int left_i_clamped
                      in Inr (of_int y_left * (1 - t) + of_int y_right * t)))"

section \<open>The lander\<close>

datatype pyval = Str string | Num real

type_synonym report = "(string \<times> pyval) list"

definition dict_set :: "string \<Rightarrow> pyval \<Rightarrow> report \<Rightarrow> report" where
  \<comment> \<open>\<open>d[k] = v\<close> on a dict kept in insertion order.\<close>
  "dict_set k v d =
     (if k \<in> fst ` set d then map (\<lambda>(k', v'). if k' = k then (k', v) else (k', v')) d
      else d @ [(k, v)])"

record keys =
  K_LEFT :: bool
  K_RIGHT :: bool
  K_UP :: bool
  K_1 :: bool
  K_2 :: bool
  K_3 :: bool

text \<open>
  The fields of \<open>Lander\<close>. \<open>img_w\<close> and \<open>img_h\<close> are the width and height of the sprite
  (\<open>img.get_width()\<close>, \<open>img.get_height()\<close>), fixed when the lander is built.
\<close>

record lander =
  img_w :: int
  img_h :: int
  x :: real
  y :: real
  world_x :: "real option"
  world_y :: "int option"
  vx :: real
  vy :: real
  ax :: real
  ay :: real
  angle :: real
  angular_velocity :: real
  fuel :: real
  oxygen :: real
  battery :: real
  temperature :: real
  damage :: real
  gforce :: real
  apu_on :: bool
  engine_startup_count :: int
  engine_out :: bool
  engine_on :: bool
  throttle :: real
  crashed :: bool
  landed :: bool
  crash_anim :: bool
  crash_index :: int
  crash_timer :: int
  report :: "report option"
  science :: int
  gravity_center :: "int \<times> int"
  contact_screen :: "(int \<times> int) option"
  contact_slope :: "real option"

definition px_per_m :: "lander \<Rightarrow> real" where
  \<comment> \<open>\<open>self.px_per_m = self.img.get_height() / Config.LANDER_HEIGHT_M\<close>\<close>
  "px_per_m s = of_int (img_h s) / LANDER_HEIGHT_M"

definition mass :: "lander \<Rightarrow> real" where
  "mass s = DRY_MASS + fuel s"

definition base_coords :: "lander \<Rightarrow> real \<times> real" where
  "base_coords s = (x s + of_int (img_w s) / 2, y s + of_int (img_h s) - 29)"

definition reset :: "lander \<Rightarrow> lander" where
  "reset s =
     (let x0 = of_int (SCREEN_SIZE div 2); y0 = of_int (SCREEN_SIZE div 4)
      in s\<lparr>x := x0, y := y0, world_x := None, world_y := None,
            vx := LANDER_VX_ENTRY, vy := 0, ax := 0, ay := 0, angle := 0,
            angular_velocity := lander_angular_velocity,
            fuel := FUEL_START, oxygen := MAX_OXYGEN, battery := MAX_BATTERY,
            temperature := 20, damage := 0, gforce := 0, apu_on := False,
            engine_startup_count := 0, engine_out := False, engine_on := False,
            throttle := 1,
            crashed := False, landed := False, crash_anim := False, crash_index := 0,
            crash_timer := 0, report := None, science := 0,
            gravity_center := (py_int (x0 + of_int (img_w s) / 2),
                               py_int (y0 + of_int (img_h s) / 2)),
            contact_screen := None, contact_slope := None\<rparr>)"

definition Lander_init :: "int \<Rightarrow> int \<Rightarrow> lander" where
  \<comment> \<open>\<open>Lander.__init__\<close> for a sprite of the given width and height. Every field that
      \<open>reset\<close> sets is set by it; the contact slope starts as \<open>None\<close>.\<close>
  "Lander_init w h =
     reset \<lparr>img_w = w, img_h = h, x = 0, y = 0, world_x = None, world_y = None,
            vx = 0, vy = 0, ax = 0, ay = 0, angle = 0, angular_velocity = 0,
            fuel = 0, oxygen = 0, battery = 0, temperature = 0, damage = 0, gforce = 0,
            apu_on = False, engine_startup_count = 0, engine_out = False, engine_on = False,
            throttle = 0, crashed = False, landed = False, crash_anim = False,
            crash_index = 0, crash_timer = 0, report = None, science = 0,
            gravity_center = (0, 0), contact_screen = None, contact_slope = None\<rparr>"

definition report_get :: "string \<Rightarrow> lander \<Rightarrow> pyval option" where
  \<comment> \<open>The entry of the report under a key, if there is a report and it has the key.\<close>
  "report_get key s = (case report s of None \<Rightarrow> None | Some d \<Rightarrow> map_of d key)"

definition compute_surface_slope :: "lander \<Rightarrow> int list \<Rightarrow> py_error + real" where
  "compute_surface_slope s topo =
     (let centre = py_int (py_floordiv (x s + of_int (img_w s) / 2) (of_int PIXEL_SIZE));
          half = 5;
          left_i = max 0 (centre - half);
          right_i = min (int (length topo) - 1) (centre + half)
      in case py_get topo left_i of
           Inl e \<Rightarrow> Inl e
         | Inr y_left \<Rightarrow>
            (case py_get topo right_i of
               Inl e \<Rightarrow> Inl e
             | Inr y_right \<Rightarrow>
                 let dx = (right_i - left_i) * PIXEL_SIZE;
                     dy = y_left - y_right
                 in Inr (degrees (atan2 (of_int dy) (of_int dx)))))"

definition altitude_at ::
  "lander \<Rightarrow> int list \<Rightarrow> real \<Rightarrow> real option \<Rightarrow> py_error + (real \<times> (real \<times> real))" where
  \<comment> \<open>\<open>SurfaceSensor.altitude_at\<close>: the altitude in metres and the point that was read.\<close>
  "altitude_at s topo offset reading_offset =
     (let ro = (case reading_offset of None \<Rightarrow> fst (base_coords s) | Some r \<Rightarrow> r);
          base_x = fst (base_coords s);
          base_y = snd (base_coords s)
      in case terrain_height_at topo (base_x + ro) of
           Inl e \<Rightarrow> Inl e
         | Inr surface_y \<Rightarrow>
             let reading_coords = (base_x - offset + ro, surface_y);
                 altitude_pixels = surface_y - base_y
             in if px_per_m s = 0 then Inl ZeroDivisionError
                else Inr (altitude_pixels / px_per_m s, reading_coords))"

definition compute_altitude :: "lander \<Rightarrow> int list \<Rightarrow> int \<Rightarrow> py_error + real" where
  \<comment> \<open>\<open>systems.physics.compute_altitude\<close>. \<open>rect_bottom\<close> is the bottom edge of the rectangle
      pygame gives the rotated sprite centred at the lander's position.\<close>
  "compute_altitude s topo rect_bottom =
     (let idx = py_int (py_floordiv (x s + of_int (img_w s) / 2) (of_int PIXEL_SIZE))
      in if 0 \<le> idx \<and> idx < int (length topo) then
           (let ground_y = topo ! nat idx;
                alt_px = max 0 (ground_y - rect_bottom)
            in if px_per_m s = 0 then Inl ZeroDivisionError
               else Inr (of_int alt_px / px_per_m s))
         else Inr 0)"

subsection \<open>One step of the physics\<close>

definition life_support :: "real \<Rightarrow> lander \<Rightarrow> lander" where
  \<comment> \<open>\<open>update_physics\<close>, life support and power: drains, the APU switch, the recharge.\<close>
  "life_support dt_sim s =
     (let s1 = s\<lparr>oxygen := max (oxygen s - OXYGEN_DRAIN_RATE * dt_sim) 0,
                 battery := max (battery s - BATTERY_DRAIN_RATE * dt_sim) 0\<rparr>;
          s2 = (if battery s1 \<le> 0 \<and> \<not> apu_on s1 then s1\<lparr>apu_on := True\<rparr>
                else if 50 \<le> battery s1 \<and> apu_on s1 then s1\<lparr>apu_on := False\<rparr>
                else s1)
      in if apu_on s2 \<and> battery s2 < MAX_BATTERY then
           (let fuel_used = APU_FUEL_RATE * dt_sim
            in s2\<lparr>fuel := max (fuel s2 - fuel_used) 0,
                  battery := min (battery s2 + APU_RECHARGE_RATE * dt_sim) MAX_BATTERY\<rparr>)
         else s2)"

definition rotational :: "keys \<Rightarrow> real \<Rightarrow> lander \<Rightarrow> lander" where
  \<comment> \<open>\<open>update_physics\<close>, rotational dynamics.\<close>
  "rotational k dt_sim s =
     (let has_power = (0 < battery s);
          s1 = (if has_power \<and> \<not> landed s then
                  (let net0 = 0;
                       net1 = (if K_LEFT k then net0 + ROTATION_TORQUE else net0);
                       net_torque = (if K_RIGHT k then net1 - ROTATION_TORQUE else net1);
                       angular_accel = net_torque / ANGULAR_INERTIA
                   in s\<lparr>angular_velocity := angular_velocity s + angular_accel * dt_sim\<rparr>)
                else s)
      in s1\<lparr>angle := py_mod (angle s1 + angular_velocity s1 * dt_sim) 360\<rparr>)"

definition select_throttle :: "keys \<Rightarrow> lander \<Rightarrow> lander" where
  "select_throttle k s =
     (if K_1 k then s\<lparr>throttle := 1\<rparr>
      else if K_2 k then s\<lparr>throttle := 1 / 2\<rparr>
      else if K_3 k then s\<lparr>throttle := 33 / 100\<rparr>
      else s)"

definition engine_step :: "keys \<Rightarrow> real \<Rightarrow> lander \<Rightarrow> lander \<times> real \<times> real" where
  \<comment> \<open>\<open>update_physics\<close>, the engine in flight: the new state and the accelerations
      \<open>ax\<close>, \<open>ay\<close>.\<close>
  "engine_step k dt_sim s =
     (let ax0 = 0; ay0 = G0_MOON
      in if K_UP k \<and> 0 < fuel s \<and> \<not> engine_out s then
           (let s1 = (if \<not> engine_on s \<and> \<not> engine_out s then
                        (let s' = s\<lparr>engine_startup_count := engine_startup_count s + 1\<rparr>
                         in if ENGINE_STARTUP_LIMIT \<le> engine_startup_count s' then
                              s'\<lparr>report := Some [(''ENGINE FAILURE'', Str ''START_UP'')],
                                 engine_out := True, engine_on := False\<rparr>
                            else s'\<lparr>engine_on := True\<rparr>)
                      else s);
                thrust = MAX_THRUST * throttle s1;
                mflow = thrust / (ISP * G0_MOON);
                fuel_used = mflow * dt_sim * throttle s1;
                s2 = s1\<lparr>fuel := max (fuel s1 - fuel_used) 0\<rparr>;
                rad = radians (angle s2)
            in (s2, ax0 + (thrust / mass s2) * - sin rad, ay0 + (thrust / mass s2) * - cos rad))
         else if fuel s \<le> 0 then (s\<lparr>engine_out := True, engine_on := False\<rparr>, ax0, ay0)
         else (s\<lparr>engine_on := False\<rparr>, ax0, ay0))"

definition flight_step :: "keys \<Rightarrow> real \<Rightarrow> lander \<Rightarrow> lander" where
  \<comment> \<open>\<open>update_physics\<close>, the branch without a contact point and not landed.\<close>
  "flight_step k dt_sim s =
     (case engine_step k dt_sim (select_throttle k s) of
        (s1, ax', ay') \<Rightarrow>
          (let s2 = s1\<lparr>ax := ax', ay := ay'\<rparr>;
               s3 = s2\<lparr>vx := vx s2 + ax' * dt_sim\<rparr>;
               s4 = s3\<lparr>vy := vy s3 + ay' * dt_sim\<rparr>;
               s5 = s4\<lparr>gforce := hypot ax' ay' / (981 / 100)\<rparr>;
               s6 = s5\<lparr>x := x s5 + vx s5 * dt_sim * px_per_m s5\<rparr>;
               s7 = s6\<lparr>y := y s6 + vy s6 * dt_sim * px_per_m s6\<rparr>
           in s7\<lparr>temperature :=
                   min (temperature s7 + (1 / 100) * gforce s7 * dt_sim) MAX_TEMPERATURE\<rparr>))"

definition liftoff_step :: "keys \<Rightarrow> real \<Rightarrow> lander \<Rightarrow> lander" where
  \<comment> \<open>\<open>update_physics\<close>, thrust while a contact point is set.\<close>
  "liftoff_step k dt_sim s =
     (let s1 = s\<lparr>engine_on := True, landed := False\<rparr>;
          thrust = MAX_THRUST * throttle s1;
          mflow = thrust / (ISP * G0_MOON);
          fuel_used = mflow * dt_sim * throttle s1;
          s2 = s1\<lparr>fuel := max (fuel s1 - fuel_used) 0\<rparr>;
          rad = radians (angle s2);
          ax' = 0 + (thrust / mass s2) * - sin rad;
          ay' = 0 + (thrust / mass s2) * - cos rad;
          s3 = s2\<lparr>ax := ax', ay := ay'\<rparr>;
          s4 = s3\<lparr>vx := vx s3 + ax' * dt_sim\<rparr>;
          s5 = s4\<lparr>vy := vy s4 + - \<bar>ay' * dt_sim\<bar>\<rparr>;
          s6 = s5\<lparr>gforce := hypot ax' ay' / (981 / 100)\<rparr>;
          s7 = s6\<lparr>x := x s6 + vx s6 * dt_sim * px_per_m s6\<rparr>
      in s7\<lparr>y := y s7 + vy s7 * dt_sim * px_per_m s7\<rparr>)"

definition pivot_step :: "real \<Rightarrow> int \<times> int \<Rightarrow> lander \<Rightarrow> py_error + lander" where
  \<comment> \<open>\<open>update_physics\<close>, the pivot about the contact point \<open>(pivot_x, pivot_y)\<close>.\<close>
  "pivot_step dt_sim pivot s =
     (let pivot_x = fst pivot; pivot_y = snd pivot;
          cg_x = fst (gravity_center s); cg_y = snd (gravity_center s)
      in if px_per_m s = 0 then Inl ZeroDivisionError
         else
           (let dx0 = of_int (cg_x - pivot_x) / px_per_m s;
                dy0 = of_int (cg_y - pivot_y) / px_per_m s;
                arm0 = atan2 dy0 dx0;
                R = hypot dx0 dy0
            in if R = 0 then Inl ZeroDivisionError
               else
                 (let tx = - dy0 / R; ty = dx0 / R;
                      g = G0_MOON;
                      tang_acc = g * ty * 2;
                      ax' = tang_acc * tx;
                      ay' = tang_acc * ty;
                      s1 = s\<lparr>ax := ax', ay := ay'\<rparr>;
                      s2 = s1\<lparr>vx := vx s1 + ax' * dt_sim\<rparr>;
                      s3 = s2\<lparr>vy := vy s2 + ay' * dt_sim\<rparr>;
                      s4 = s3\<lparr>x := x s3 + vx s3 * dt_sim * px_per_m s3\<rparr>;
                      s5 = s4\<lparr>y := y s4 + vy s4 * dt_sim * px_per_m s4\<rparr>;
                      cg2_x = of_int cg_x + vx s5 * dt_sim * px_per_m s5;
                      cg2_y = of_int cg_y + vy s5 * dt_sim * px_per_m s5;
                      dx1 = (cg2_x - of_int pivot_x) / px_per_m s5;
                      dy1 = (cg2_y - of_int pivot_y) / px_per_m s5;
                      arm1 = atan2 dy1 dx1;
                      delta_arm = py_mod (degrees (arm1 - arm0) + 180) 360 - 180
                  in Inr (s5\<lparr>angle := py_mod (angle s5 - delta_arm) 360\<rparr>))))"

definition contact_step :: "keys \<Rightarrow> real \<Rightarrow> int list \<Rightarrow> int \<times> int \<Rightarrow> lander \<Rightarrow> py_error + lander" where
  \<comment> \<open>\<open>update_physics\<close>, the branch with a contact point: lift-off, pivot or rest.\<close>
  "contact_step k dt_sim topo pivot s =
     (case compute_surface_slope s topo of
        Inl e \<Rightarrow> Inl e
      | Inr target_slope \<Rightarrow>
          (let rotation_step = ROTATION_SPEED * dt_sim;
               adiff = angle_diff target_slope (angle s);
               s1 = s\<lparr>angular_velocity := 0, engine_on := False, ax := 0, ay := 0\<rparr>
           in if K_UP k \<and> 0 < fuel s1 \<and> \<not> engine_out s1 then Inr (liftoff_step k dt_sim s1)
              else if rotation_step \<le> \<bar>adiff\<bar> then pivot_step dt_sim pivot s1
              else Inr (s1\<lparr>ax := 0, ay := 0, vx := 0, vy := 0,
                           angle := py_mod target_slope 360, landed := True\<rparr>)))"

definition update_physics :: "keys \<Rightarrow> real \<Rightarrow> int list \<Rightarrow> lander \<Rightarrow> py_error + lander" where
  "update_physics k dt topo s =
     (let dt_sim = dt * TIME_SCALE
      in if crashed s then Inr s
         else
           (let s1 = rotational k dt_sim (life_support dt_sim s)
            in if contact_screen s1 = None \<and> \<not> landed s1 then Inr (flight_step k dt_sim s1)
               else (case contact_screen s1 of
                       Some pivot \<Rightarrow>
                         if \<not> crashed s1 then contact_step k dt_sim topo pivot s1 else Inr s1
                     | None \<Rightarrow> Inr s1)))"

subsection \<open>Contact with the terrain\<close>

text \<open>
  What pygame reports in one frame: whether \<open>detect_rock_collision\<close> found a rock, the
  rectangle of the rotated sprite, the first pixel where the sprite's mask overlaps the
  terrain's (if any), and the clock.
\<close>

record frame =
  rock_hit :: bool
  rect_left :: int
  rect_top :: int
  contact :: "(int \<times> int) option"
  now :: int

definition crash :: "string \<Rightarrow> int \<Rightarrow> lander \<Rightarrow> lander" where
  \<comment> \<open>\<open>Lander._crash\<close>\<close>
  "crash reason ticks s =
     (let s1 = s\<lparr>crashed := True, crash_anim := True, crash_index := 0, engine_on := False,
                 crash_timer := ticks\<rparr>;
          impact_speed = hypot (vx s1) (vy s1)
      in s1\<lparr>report := Some [(''CAUSE:'', Str reason),
                            (''impact_speed'', Num (py_round impact_speed 2)),
                            (''impact_angle'', Num (py_round (angle s1) 1))]\<rparr>)"

definition ratio_sum :: "real \<Rightarrow> lander \<Rightarrow> real" where
  \<comment> \<open>\<open>vel_ratio + angle_ratio\<close> of \<open>collision_check\<close>, for the slope under the lander.\<close>
  "ratio_sum slope s =
     (let vel_abs = hypot (vy s) (vx s);
          adiff = angle_diff slope (angle s);
          vel_ratio = vel_abs / LAND_DAMAGE_SPEED;
          angle_ratio = \<bar>adiff\<bar> / MAX_LANDING_ANGLE
      in vel_ratio + angle_ratio)"

definition first_contact :: "real \<Rightarrow> bool \<Rightarrow> int \<Rightarrow> lander \<Rightarrow> lander" where
  \<comment> \<open>\<open>collision_check\<close> after the contact point is recorded: damage, crash or landing.\<close>
  "first_contact slope special_hit ticks s =
     (let abs_vy = \<bar>vy s\<bar>
      in if 25 / 100 < ratio_sum slope s then
           (let damage_amount = ratio_sum slope s * 100;
                s1 = s\<lparr>damage := min (damage s + damage_amount) 100\<rparr>
            in if 100 \<le> damage s1 \<and> 75 / 100 < ratio_sum slope s then
                 crash ''STRUCTURAL DAMAGE'' ticks s1
               else if 15 / 10 < ratio_sum slope s then crash ''HARD LANDING'' ticks s1
               else s1)
         else
           (let s1 = s\<lparr>report := Some [(''landing_speed'', Num abs_vy)]\<rparr>
            in if special_hit then
                 (let s2 = s1\<lparr>science := science s1 + 10\<rparr>;
                      d = (case report s2 of None \<Rightarrow> [] | Some r \<Rightarrow> if r = [] then [] else r)
                  in s2\<lparr>report := Some (dict_set ''sample'' (Str ''cool rock'') d)\<rparr>)
               else s1))"

definition collision_check ::
  "frame \<Rightarrow> keys \<Rightarrow> int list \<Rightarrow> real \<Rightarrow> bool \<Rightarrow> lander \<Rightarrow> py_error + lander" where
  "collision_check f k topo offset_x special_hit s =
     (if rock_hit f then Inr (crash ''CRASHED INTO ROCKS'' (now f) s)
      else
        (case compute_surface_slope s topo of
           Inl e \<Rightarrow> Inl e
         | Inr slope \<Rightarrow>
             (let s1 = s\<lparr>contact_slope := Some slope\<rparr>;
                  wx = of_int (rect_left f) + offset_x;
                  wy = rect_top f;
                  s2 = s1\<lparr>world_x := Some wx, world_y := Some wy\<rparr>
              in case contact f of
                   None \<Rightarrow>
                     if contact_screen s2 \<noteq> None \<and> K_UP k then Inr (s2\<lparr>contact_screen := None\<rparr>)
                     else Inr s2
                 | Some (cx_mask, cy_mask) \<Rightarrow>
                     if contact_screen s2 = None then
                       (let screen_x = py_int ((wx - offset_x) + of_int cx_mask);
                            screen_y = wy + cy_mask;
                            s3 = s2\<lparr>contact_screen := Some (screen_x, screen_y)\<rparr>
                        in Inr (first_contact slope special_hit (now f) s3))
                     else Inr s2)))"

subsection \<open>The older lander module\<close>




subsection \<open>The simulation loop\<close>

definition draw :: "real \<Rightarrow> lander \<Rightarrow> lander" where
  \<comment> \<open>What \<open>Lander.draw\<close> changes in the lander: in flight, the gravity centre.\<close>
  "draw offset s =
     (if crashed s then s
      else if landed s \<or> contact_screen s \<noteq> None then s
      else s\<lparr>gravity_center := (py_int (x s - offset + of_int (img_w s) / 2),
                                 py_int (y s + of_int (img_h s) / 2))\<rparr>)"

definition compute_camera_offset :: "real \<Rightarrow> real" where
  "compute_camera_offset xpos =
     (let off = xpos - of_int (SCREEN_SIZE div 2)
      in max 0 (min off (of_int (TERRAIN_LENGTH - SCREEN_SIZE))))"

text \<open>
  One pass of the loop of \<open>main.py\<close> over the lander: the physics, the camera, the
  drawing, and the collision check unless the lander is landed or crashed.
  \<open>tick_dt\<close> is the frame time, \<open>tick_special_hit\<close> what the rock manager reports.
  The sensors' reads, the sound, the HUD and the crash animation counters that the loop
  also runs change none of the fields the physics and the collision check use.
\<close>

record tick_input =
  tick_keys :: keys
  tick_dt :: real
  tick_frame :: frame
  tick_special_hit :: bool

definition tick :: "int list \<Rightarrow> tick_input \<Rightarrow> lander \<Rightarrow> py_error + lander" where
  "tick topo i s =
     (case update_physics (tick_keys i) (tick_dt i) topo s of
        Inl e \<Rightarrow> Inl e
      | Inr s1 \<Rightarrow>
          (let offset = compute_camera_offset (x s1);
               s2 = draw offset s1
           in if \<not> (landed s2 \<or> crashed s2) then
                collision_check (tick_frame i) (tick_keys i) topo offset (tick_special_hit i) s2
              else Inr s2))"

fun run :: "int list \<Rightarrow> tick_input list \<Rightarrow> lander \<Rightarrow> py_error + lander" where
  "run topo [] s = Inr s"
| "run topo (i # is) s =
     (case tick topo i s of Inl e \<Rightarrow> Inl e | Inr s' \<Rightarrow> run topo is s')"

subsection \<open>States with resources in range\<close>

definition resources_ok :: "lander \<Rightarrow> bool" where
  "resources_ok s =
     (0 \<le> oxygen s \<and> oxygen s \<le> MAX_OXYGEN \<and> 0 \<le> battery s \<and> battery s \<le> MAX_BATTERY
      \<and> 0 \<le> fuel s \<and> fuel s \<le> FUEL_START \<and> 0 \<le> damage s \<and> damage s \<le> 100)"

section \<open>Properties of the surface sensor\<close>

lemma py_get_in_range: "0 \<le> i \<Longrightarrow> i < int (length xs) \<Longrightarrow> py_get xs i = Inr (xs ! nat i)"
  by (simp add: py_get_def)

lemma terrain_height_at_clamped:
  assumes "max 0 (min \<lfloor>xw / 8\<rfloor> (int (length topo) - 1)) = l"
    and "max 0 (min \<lceil>xw / 8\<rceil> (int (length topo) - 1)) = r"
    and "0 \<le> l" "l < int (length topo)" "0 \<le> r" "r < int (length topo)"
  shows "terrain_height_at topo xw =
           (if l = r then Inr (of_int (topo ! nat l))
            else Inr (of_int (topo ! nat l) * (1 - (xw / 8 - of_int l))
                      + of_int (topo ! nat r) * (xw / 8 - of_int l)))"
  using assms(3-6)
  by (simp add: terrain_height_at_def PIXEL_SIZE_def Let_def assms(1,2) py_get_in_range)

lemma terrain_height_at_between:
  assumes "Suc i < length topo"
    and "of_int PIXEL_SIZE * real i \<le> xw" and "xw \<le> of_int PIXEL_SIZE * real (Suc i)"
  shows "terrain_height_at topo xw =
           Inr (of_int (topo ! i) * (1 - (xw / of_int PIXEL_SIZE - real i))
                + of_int (topo ! Suc i) * (xw / of_int PIXEL_SIZE - real i))"
proof -
  let ?q = "xw / 8"
  let ?m = "int (length topo) - 1"
  have lo: "real i \<le> ?q" and hi: "?q \<le> real i + 1"
    using assms(2,3) by (simp_all add: PIXEL_SIZE_def)
  have m: "int i + 1 \<le> ?m" using assms(1) by simp
  consider "?q = real i" | "?q = real i + 1" | "real i < ?q" "?q < real i + 1"
    using lo hi by linarith
  then show ?thesis
  proof cases
    case 1
    then have "\<lfloor>?q\<rfloor> = int i" "\<lceil>?q\<rceil> = int i" by simp_all
    then have "max 0 (min \<lfloor>?q\<rfloor> ?m) = int i" "max 0 (min \<lceil>?q\<rceil> ?m) = int i"
      using m by simp_all
    from terrain_height_at_clamped[OF this] assms(1) show ?thesis
      by (simp add: PIXEL_SIZE_def 1)
  next
    case 2
    then have "\<lfloor>?q\<rfloor> = int i + 1" "\<lceil>?q\<rceil> = int i + 1"
      by (simp_all add: floor_eq_iff ceiling_eq_iff)
    then have "max 0 (min \<lfloor>?q\<rfloor> ?m) = int i + 1" "max 0 (min \<lceil>?q\<rceil> ?m) = int i + 1"
      using m by simp_all
    from terrain_height_at_clamped[OF this] assms(1) show ?thesis
      by (simp add: PIXEL_SIZE_def nat_add_distrib 2)
  next
    case 3
    then have "\<lfloor>?q\<rfloor> = int i" and "\<lceil>?q\<rceil> = int i + 1"
      by (simp_all add: floor_eq_iff ceiling_eq_iff)
    then have "max 0 (min \<lfloor>?q\<rfloor> ?m) = int i" "max 0 (min \<lceil>?q\<rceil> ?m) = int i + 1"
      using m by simp_all
    from terrain_height_at_clamped[OF this] assms(1) show ?thesis
      by (simp add: PIXEL_SIZE_def nat_add_distrib)
  qed
qed



lemma clamp_low: "(a::int) \<le> 0 \<Longrightarrow> max 0 (min a m) = 0"
  by (simp add: max_def min_def)

lemma clamp_high: "(0::int) \<le> m \<Longrightarrow> m \<le> a \<Longrightarrow> max 0 (min a m) = m"
  by (simp add: max_def min_def)

lemma terrain_height_at_left:
  assumes "topo \<noteq> []" and "xw \<le> 0"
  shows "terrain_height_at topo xw = Inr (of_int (hd topo))"
proof -
  have "xw / 8 \<le> 0" using assms(2) by simp
  then have "\<lfloor>xw / 8\<rfloor> \<le> 0" "\<lceil>xw / 8\<rceil> \<le> 0"
    by (simp_all add: floor_le_iff ceiling_le_iff)
  then have "max 0 (min \<lfloor>xw / 8\<rfloor> (int (length topo) - 1)) = 0"
    and "max 0 (min \<lceil>xw / 8\<rceil> (int (length topo) - 1)) = 0"
    by (simp_all only: clamp_low)
  from terrain_height_at_clamped[OF this] assms(1) show ?thesis
    by (simp add: hd_conv_nth)
qed

lemma terrain_height_at_flat:
  assumes "max 0 (min \<lfloor>xw / 8\<rfloor> (int (length topo) - 1)) = l"
    and "max 0 (min \<lceil>xw / 8\<rceil> (int (length topo) - 1)) = l"
    and "0 \<le> l" "l < int (length topo)"
  shows "terrain_height_at topo xw = Inr (of_int (topo ! nat l))"
  using terrain_height_at_clamped[OF assms(1,2,3,4,3,4)] by simp

lemma last_index_le:
  assumes n: "Suc 0 \<le> length topo" and le: "8 * real (length topo - 1) \<le> xw"
  shows "real_of_int (int (length topo) - 1) \<le> xw / 8"
proof -
  have "real_of_int (int (length topo) - 1) = real (length topo) - 1" by simp
  also have "\<dots> = real (length topo - 1)"
    using n by (simp only: of_nat_diff of_nat_Suc of_nat_0 add_0)
  finally have e: "real_of_int (int (length topo) - 1) = real (length topo - 1)" .
  have "real (length topo - 1) \<le> xw / 8" using le by linarith
  then show ?thesis by (simp only: e)
qed

lemma terrain_height_at_right:
  assumes "topo \<noteq> []" and "of_int PIXEL_SIZE * real (length topo - 1) \<le> xw"
  shows "terrain_height_at topo xw = Inr (of_int (last topo))"
proof -
  let ?m = "int (length topo) - 1"
  have n: "Suc 0 \<le> length topo" using assms(1) by (cases topo) simp_all
  then have m0: "0 \<le> ?m" and m1: "?m < int (length topo)" by linarith+
  have "8 * real (length topo - 1) \<le> xw" using assms(2) unfolding PIXEL_SIZE_def by simp
  then have q: "of_int ?m \<le> xw / 8" by (rule last_index_le[OF n])
  have fl: "?m \<le> \<lfloor>xw / 8\<rfloor>" using q by (simp only: le_floor_iff)
  have "xw / 8 \<le> of_int \<lceil>xw / 8\<rceil>" by (rule le_of_int_ceiling)
  with q have "(of_int ?m :: real) \<le> of_int \<lceil>xw / 8\<rceil>" by (rule order_trans)
  then have ce: "?m \<le> \<lceil>xw / 8\<rceil>" by (simp only: of_int_le_iff)
  have c1: "max 0 (min \<lfloor>xw / 8\<rfloor> ?m) = ?m" by (rule clamp_high[OF m0 fl])
  have c2: "max 0 (min \<lceil>xw / 8\<rceil> ?m) = ?m" by (rule clamp_high[OF m0 ce])
  have nm: "nat ?m = length topo - 1" by (simp add: nat_diff_distrib)
  have "terrain_height_at topo xw = Inr (of_int (topo ! nat ?m))"
    by (rule terrain_height_at_flat[OF c1 c2 m0 m1])
  then show ?thesis by (simp only: nm last_conv_nth[OF assms(1)])
qed

lemma terrain_height_at_frac:
  assumes "Suc i < length topo" and "0 \<le> t" and "t \<le> 1"
  shows "terrain_height_at topo (of_int PIXEL_SIZE * (real i + t))
           = Inr (of_int (topo ! i) * (1 - t) + of_int (topo ! Suc i) * t)"
proof -
  have "of_int PIXEL_SIZE * real i \<le> of_int PIXEL_SIZE * (real i + t)"
    and "of_int PIXEL_SIZE * (real i + t) \<le> of_int PIXEL_SIZE * real (Suc i)"
    using assms(2,3) by (simp_all add: PIXEL_SIZE_def)
  from terrain_height_at_between[OF assms(1) this]
  have "terrain_height_at topo (of_int PIXEL_SIZE * (real i + t))
          = Inr (of_int (topo ! i) * (1 - (of_int PIXEL_SIZE * (real i + t) / of_int PIXEL_SIZE - real i))
                 + of_int (topo ! Suc i) * (of_int PIXEL_SIZE * (real i + t) / of_int PIXEL_SIZE - real i))" .
  moreover have "of_int PIXEL_SIZE * (real i + t) / of_int PIXEL_SIZE - real i = t"
    unfolding PIXEL_SIZE_def by (simp add: add_divide_distrib)
  ultimately show ?thesis by (simp only:)
qed

lemma terrain_height_at_sample:
  assumes "i < length topo"
  shows "terrain_height_at topo (of_int PIXEL_SIZE * real i) = Inr (of_int (topo ! i))"
proof (cases "Suc i < length topo")
  case True
  from terrain_height_at_frac[OF True, of 0] show ?thesis by simp
next
  case False
  with assms have li: "length topo - 1 = i" by linarith
  from assms have ne: "topo \<noteq> []" by auto
  have "of_int PIXEL_SIZE * real (length topo - 1) \<le> of_int PIXEL_SIZE * real i"
    by (simp only: li order_refl)
  from terrain_height_at_right[OF ne this] show ?thesis
    by (simp only: last_conv_nth[OF ne] li)
qed

lemma terrain_height_at_midpoint:
  assumes "Suc i < length topo"
  shows "terrain_height_at topo (of_int PIXEL_SIZE * (real i + 1 / 2))
           = Inr ((of_int (topo ! i) + of_int (topo ! Suc i)) / 2)"
proof -
  have "of_int (topo ! i) * (1 - 1 / 2) + of_int (topo ! Suc i) * (1 / 2)
          = ((of_int (topo ! i) + of_int (topo ! Suc i)) / 2 :: real)"
    by (simp add: algebra_simps)
  with terrain_height_at_frac[OF assms, of "1 / 2"] show ?thesis by simp
qed


text \<open>
  Claim C7. On a terrain with at least one sample, the height query interpolates
  linearly between the two samples that bracket the position and never extrapolates:
  at a sample's own position it returns that sample's height; halfway between two
  neighbouring samples it returns their arithmetic mean; anywhere between two
  neighbouring samples it returns the linear interpolation of the two; left of the
  first sample it returns the first height and right of the last sample the last one.
  Samples are \<open>PIXEL_SIZE\<close> pixels apart, sample \<open>i\<close> sitting at \<open>PIXEL_SIZE * i\<close>.
\<close>

theorem terrain_height_at_interpolates:
  assumes "topo \<noteq> []"
  shows "(\<forall>i. i < length topo \<longrightarrow>
            terrain_height_at topo (of_int PIXEL_SIZE * real i) = Inr (of_int (topo ! i)))
       \<and> (\<forall>i. Suc i < length topo \<longrightarrow>
            terrain_height_at topo (of_int PIXEL_SIZE * (real i + 1 / 2))
              = Inr ((of_int (topo ! i) + of_int (topo ! Suc i)) / 2))
       \<and> (\<forall>i xw. Suc i < length topo \<and> of_int PIXEL_SIZE * real i \<le> xw
                  \<and> xw \<le> of_int PIXEL_SIZE * real (Suc i) \<longrightarrow>
            terrain_height_at topo xw
              = Inr (of_int (topo ! i) * (1 - (xw / of_int PIXEL_SIZE - real i))
                     + of_int (topo ! Suc i) * (xw / of_int PIXEL_SIZE - real i)))
       \<and> (\<forall>xw. xw < 0 \<longrightarrow> terrain_height_at topo xw = Inr (of_int (hd topo)))
       \<and> (\<forall>xw. of_int PIXEL_SIZE * real (length topo - 1) < xw \<longrightarrow>
            terrain_height_at topo xw = Inr (of_int (last topo)))"
proof (intro conjI allI impI)
  fix i assume "i < length topo"
  then show "terrain_height_at topo (of_int PIXEL_SIZE * real i) = Inr (of_int (topo ! i))"
    by (rule terrain_height_at_sample)
next
  fix i assume "Suc i < length topo"
  then show "terrain_height_at topo (of_int PIXEL_SIZE * (real i + 1 / 2))
          = Inr ((of_int (topo ! i) + of_int (topo ! Suc i)) / 2)"
    by (rule terrain_height_at_midpoint)
next
  fix i xw
  assume a: "Suc i < length topo \<and> of_int PIXEL_SIZE * real i \<le> xw
            \<and> xw \<le> of_int PIXEL_SIZE * real (Suc i)"
  show "terrain_height_at topo xw
              = Inr (of_int (topo ! i) * (1 - (xw / of_int PIXEL_SIZE - real i))
                     + of_int (topo ! Suc i) * (xw / of_int PIXEL_SIZE - real i))"
    by (rule terrain_height_at_between[OF a[THEN conjunct1] a[THEN conjunct2, THEN conjunct1]
          a[THEN conjunct2, THEN conjunct2]])
next
  fix xw :: real assume "xw < 0"
  then have "xw \<le> 0" by simp
  then show "terrain_height_at topo xw = Inr (of_int (hd topo))"
    by (rule terrain_height_at_left[OF assms])
next
  fix xw assume "of_int PIXEL_SIZE * real (length topo - 1) < xw"
  then have "of_int PIXEL_SIZE * real (length topo - 1) \<le> xw" by (rule less_imp_le)
  then show "terrain_height_at topo xw = Inr (of_int (last topo))"
    by (rule terrain_height_at_right[OF assms])
qed

theorem terrain_height_at_interpolates_witness:
  "terrain_height_at [900, 910, 930] 8 = Inr 910
   \<and> terrain_height_at [900, 910, 930] 12 = Inr 920
   \<and> terrain_height_at [900, 910, 930] 10 = Inr 915
   \<and> terrain_height_at [900, 910, 930] (- 5) = Inr 900
   \<and> terrain_height_at [900, 910, 930] 100 = Inr 930"
proof -
  have ne: "[900, 910, 930 :: int] \<noteq> []" by simp
  note t = terrain_height_at_interpolates[OF ne]
  have "terrain_height_at [900, 910, 930] 8 = Inr 910"
    using t[THEN conjunct1, rule_format, of 1] by (simp add: PIXEL_SIZE_def)
  moreover have "terrain_height_at [900, 910, 930] 12 = Inr 920"
    using t[THEN conjunct2, THEN conjunct1, rule_format, of 1] by (simp add: PIXEL_SIZE_def)
  moreover have "terrain_height_at [900, 910, 930] 10 = Inr 915"
    using t[THEN conjunct2, THEN conjunct2, THEN conjunct1, rule_format, of 1 10]
    by (simp add: PIXEL_SIZE_def)
  moreover have "terrain_height_at [900, 910, 930] (- 5) = Inr 900"
    using t[THEN conjunct2, THEN conjunct2, THEN conjunct2, THEN conjunct1, rule_format, of "- 5"]
    by simp
  moreover have "terrain_height_at [900, 910, 930] 100 = Inr 930"
    using t[THEN conjunct2, THEN conjunct2, THEN conjunct2, THEN conjunct2, rule_format, of 100]
    by (simp add: PIXEL_SIZE_def)
  ultimately show ?thesis by simp
qed

section \<open>Properties of the contact evaluation\<close>

lemma hypot_zero_right: "hypot a 0 = \<bar>a\<bar>"
  by (simp add: hypot_def)

text \<open>
  The float remainder. An operand already in \<open>[0, m)\<close> is returned unchanged. The exact
  \<open>fmod\<close> stays strictly inside \<open>(-m, m)\<close>; the rounded correction of a negative
  remainder can reach the divisor itself, and for the divisor 360 it goes no further.
\<close>

lemma py_mod_small:
  assumes "0 \<le> a" and "a < m"
  shows "py_mod a m = a"
proof -
  have m: "0 < m" using assms by linarith
  have "0 \<le> a / m" "a / m < 1" using assms m by simp_all
  then have "\<lfloor>a / m\<rfloor> = 0" by linarith
  then have "py_fmod a m = a" using \<open>0 \<le> a / m\<close> by (simp add: py_fmod_def py_int_def)
  then show ?thesis using assms m by (simp add: py_mod_def Let_def)
qed

lemma py_fmod_bounds:
  assumes m: "0 < m"
  shows "- m < py_fmod a m \<and> py_fmod a m < m"
proof -
  let ?t = "a / m"
  have d: "py_fmod a m = m * (?t - of_int (py_int ?t))"
    by (simp add: py_fmod_def right_diff_distrib) (use m in simp)
  have b: "- 1 < ?t - of_int (py_int ?t) \<and> ?t - of_int (py_int ?t) < 1"
    unfolding py_int_def by (cases "0 \<le> ?t") (simp; linarith)+
  have "m * (- 1) < m * (?t - of_int (py_int ?t))"
    using b m by (simp only: mult_less_cancel_left_pos)
  moreover have "m * (?t - of_int (py_int ?t)) < m * 1"
    using b m by (simp only: mult_less_cancel_left_pos)
  ultimately show ?thesis unfolding d by simp
qed

lemma round_half_even_bounds: "\<lfloor>t\<rfloor> \<le> round_half_even t \<and> round_half_even t \<le> \<lceil>t\<rceil>"
proof -
  have "\<lceil>t\<rceil> = \<lfloor>t\<rfloor> + 1" if "t \<noteq> of_int \<lfloor>t\<rfloor>"
    using that by (metis ceiling_altdef)
  moreover have "t - of_int \<lfloor>t\<rfloor> = 0" if "t = of_int \<lfloor>t\<rfloor>" using that by simp
  ultimately show ?thesis
    by (cases "t = of_int \<lfloor>t\<rfloor>") (auto simp add: round_half_even_def Let_def)
qed

lemma double_round_nonneg:
  assumes "0 \<le> v"
  shows "0 \<le> double_round v"
proof (cases "v = 0")
  case True
  then show ?thesis by (simp add: double_round_def)
next
  case False
  define q :: real where "q = 2 powr (of_int (max \<lfloor>log 2 \<bar>v\<bar>\<rfloor> (- 1022)) - 52)"
  have q: "0 < q" by (simp add: q_def)
  then have "0 \<le> v / q" using assms by simp
  then have "0 \<le> \<lfloor>v / q\<rfloor>" by simp
  with round_half_even_bounds[of "v / q"] have "0 \<le> round_half_even (v / q)" by linarith
  then have "0 \<le> q * of_int (round_half_even (v / q))" using q by simp
  then show ?thesis using False by (simp add: double_round_def Let_def q_def)
qed

lemma double_round_le_360:
  assumes "0 < v" and "v < 360"
  shows "double_round v \<le> 360"
proof -
  define e where "e = max \<lfloor>log 2 \<bar>v\<bar>\<rfloor> (- 1022)"
  define q :: real where "q = 2 powr (of_int e - 52)"
  have q: "0 < q" by (simp add: q_def)
  have "log 2 v < log 2 512" using assms by simp
  moreover have "log 2 512 = 9"
  proof -
    have "(512::real) = 2 ^ 9" by simp
    then show ?thesis by (simp only: log_pow_cancel)
  qed
  ultimately have "\<lfloor>log 2 v\<rfloor> \<le> 8" by linarith
  then have e8: "e \<le> 8" using assms by (simp add: e_def)
  define n where "n = nat (55 - e)"
  have n: "int n = 55 - e" using e8 by (simp add: n_def)
  have "q * 2 ^ n = 2 powr (of_int e - 52) * 2 powr (real n)"
    by (simp add: q_def powr_realpow)
  also have "\<dots> = 2 powr (of_int e - 52 + real n)" by (simp add: powr_add)
  also have "of_int e - 52 + real n = (3::real)"
  proof -
    have "real n = of_int (55 - e)" using n by (metis of_int_of_nat_eq)
    then show ?thesis by simp
  qed
  also have "(2::real) powr 3 = 8" by simp
  finally have qn: "q * 2 ^ n = 8" .
  have "360 = q * of_int (45 * 2 ^ n)"
    using qn by simp
  then have N: "360 / q = of_int (45 * 2 ^ n)" using q by (simp add: field_simps)
  have "v / q \<le> 360 / q" using assms q by (simp add: divide_right_mono)
  then have "\<lceil>v / q\<rceil> \<le> \<lceil>360 / q\<rceil>" by (rule ceiling_mono)
  also have "\<dots> = 45 * 2 ^ n" unfolding N by (simp only: ceiling_of_int)
  finally have "round_half_even (v / q) \<le> 45 * 2 ^ n"
    using round_half_even_bounds[of "v / q"] by linarith
  then have "(of_int (round_half_even (v / q)) :: real) \<le> of_int (45 * 2 ^ n)"
    by (simp only: of_int_le_iff)
  then have "q * of_int (round_half_even (v / q)) \<le> q * of_int (45 * 2 ^ n)"
    using q by (simp only: mult_le_cancel_left_pos)
  also have "\<dots> = 360" using N q by (simp add: field_simps)
  finally show ?thesis using assms by (simp add: double_round_def Let_def q_def e_def)
qed

lemma py_mod_360: "0 \<le> py_mod a 360 \<and> py_mod a 360 \<le> 360"
proof -
  let ?r = "py_fmod a 360"
  have b: "- 360 < ?r \<and> ?r < 360" by (rule py_fmod_bounds) simp
  show ?thesis
  proof (cases "?r < 0")
    case True
    then have "py_mod a 360 = double_round (?r + 360)" by (simp add: py_mod_def Let_def)
    moreover have "0 < ?r + 360" "?r + 360 < 360" using b True by simp_all
    ultimately show ?thesis
      using double_round_nonneg[of "?r + 360"] double_round_le_360[of "?r + 360"] by simp
  next
    case False
    then show ?thesis using b by (simp add: py_mod_def Let_def)
  qed
qed


lemma collision_check_first:
  assumes "\<not> rock_hit f" and "contact f = Some c" and "contact_screen s = None"
    and "compute_surface_slope s topo = Inr slope"
  shows "collision_check f k topo offset_x special_hit s =
           Inr (first_contact slope special_hit (now f)
                  (s\<lparr>contact_slope := Some slope,
                      world_x := Some (of_int (rect_left f) + offset_x),
                      world_y := Some (rect_top f),
                      contact_screen := Some (rect_left f + fst c, rect_top f + snd c)\<rparr>))"
proof -
  have "py_int (of_int (rect_left f) + offset_x - offset_x + of_int (fst c)) = rect_left f + fst c"
    by (simp add: py_int_def)
  then show ?thesis using assms
    by (cases c) (simp add: collision_check_def Let_def)
qed




lemma first_contact_soft:
  assumes "ratio_sum slope s \<le> 1 / 4"
  shows "damage (first_contact slope sp ticks s) = damage s"
    and "crashed (first_contact slope sp ticks s) = crashed s"
    and "contact_screen (first_contact slope sp ticks s) = contact_screen s"
    and "report_get ''landing_speed'' (first_contact slope sp ticks s) = Some (Num \<bar>vy s\<bar>)"
    and "sp \<Longrightarrow> science (first_contact slope sp ticks s) = science s + 10"
    and "sp \<Longrightarrow> report_get ''sample'' (first_contact slope sp ticks s) = Some (Str ''cool rock'')"
    and "\<not> sp \<Longrightarrow> science (first_contact slope sp ticks s) = science s"
    and "\<not> sp \<Longrightarrow> report (first_contact slope sp ticks s) = Some [(''landing_speed'', Num \<bar>vy s\<bar>)]"
  using assms
  by (simp_all add: first_contact_def report_get_def dict_set_def Let_def)



lemma angle_diff_same: "angle_diff a a = 0"
  by (simp add: angle_diff_def py_mod_small)

lemma Lander_init_fields:
  "x (Lander_init w h) = 500" "img_w (Lander_init w h) = w" "img_h (Lander_init w h) = h"
  "vx (Lander_init w h) = 10" "vy (Lander_init w h) = 0" "angle (Lander_init w h) = 0"
  "damage (Lander_init w h) = 0" "crashed (Lander_init w h) = False"
  "contact_screen (Lander_init w h) = None" "landed (Lander_init w h) = False"
  "science (Lander_init w h) = 0" "report (Lander_init w h) = None"
  "fuel (Lander_init w h) = 2000" "engine_out (Lander_init w h) = False"
  "engine_on (Lander_init w h) = False" "engine_startup_count (Lander_init w h) = 0"
  "throttle (Lander_init w h) = 1" "battery (Lander_init w h) = 100"
  "oxygen (Lander_init w h) = 100" "apu_on (Lander_init w h) = False"
  "angular_velocity (Lander_init w h) = 0" "y (Lander_init w h) = 250"
  by (simp_all add: Lander_init_def reset_def Let_def SCREEN_SIZE_def LANDER_VX_ENTRY_def
        FUEL_START_def MAX_BATTERY_def MAX_OXYGEN_def lander_angular_velocity_def)

lemma slope_flat:
  assumes "x s = 500" and "img_w s = 64"
  shows "compute_surface_slope s (replicate 1875 900) = Inr 0"
proof -
  have "\<lfloor>(532::real) / 8\<rfloor> = 66" by (simp add: floor_eq_iff)
  then show ?thesis
    by (simp add: compute_surface_slope_def assms py_floordiv_def py_int_def PIXEL_SIZE_def
        py_get_def Let_def atan2_def degrees_def)
qed

lemma ratio_sum_level:
  assumes "vx s = 0" and "angle s = slope"
  shows "ratio_sum slope s = \<bar>vy s\<bar> / 10"
  by (simp add: ratio_sum_def assms hypot_zero_right angle_diff_same Let_def
      LAND_DAMAGE_SPEED_def MAX_LANDING_ANGLE_def)





text \<open>
  The hard-landing scenario of claim C2 on a fresh lander over flat ground, descending at
  12 m/s: the ratio sum is 1.2, which is not above 1.5, and the crash that follows has
  the cause STRUCTURAL DAMAGE, not HARD LANDING.
\<close>

theorem hard_landing_scenario_counterexample:
  "ratio_sum 0 ((Lander_init 64 70)\<lparr>vx := 0, vy := 12\<rparr>) = 12 / 10
   \<and> \<not> 3 / 2 < ratio_sum 0 ((Lander_init 64 70)\<lparr>vx := 0, vy := 12\<rparr>)
   \<and> \<not> isl (collision_check
              \<lparr>rock_hit = False, rect_left = 468, rect_top = 250, contact = Some (32, 69), now = 1000\<rparr>
              \<lparr>K_LEFT = False, K_RIGHT = False, K_UP = False, K_1 = False, K_2 = False, K_3 = False\<rparr>
              (replicate 1875 900) 0 False ((Lander_init 64 70)\<lparr>vx := 0, vy := 12\<rparr>))
   \<and> report_get ''CAUSE:''
        (projr (collision_check
              \<lparr>rock_hit = False, rect_left = 468, rect_top = 250, contact = Some (32, 69), now = 1000\<rparr>
              \<lparr>K_LEFT = False, K_RIGHT = False, K_UP = False, K_1 = False, K_2 = False, K_3 = False\<rparr>
              (replicate 1875 900) 0 False ((Lander_init 64 70)\<lparr>vx := 0, vy := 12\<rparr>)))
       = Some (Str ''STRUCTURAL DAMAGE'')
   \<and> report_get ''CAUSE:''
        (projr (collision_check
              \<lparr>rock_hit = False, rect_left = 468, rect_top = 250, contact = Some (32, 69), now = 1000\<rparr>
              \<lparr>K_LEFT = False, K_RIGHT = False, K_UP = False, K_1 = False, K_2 = False, K_3 = False\<rparr>
              (replicate 1875 900) 0 False ((Lander_init 64 70)\<lparr>vx := 0, vy := 12\<rparr>)))
       \<noteq> Some (Str ''HARD LANDING'')"
proof -
  let ?f = "\<lparr>rock_hit = False, rect_left = 468, rect_top = 250, contact = Some (32, 69), now = 1000\<rparr>"
  let ?s = "(Lander_init 64 70)\<lparr>vx := 0, vy := 12\<rparr>"
  have h1: "\<not> rock_hit ?f" and h2: "contact ?f = Some (32, 69)" by simp_all
  have h3: "contact_screen ?s = None" by (simp add: Lander_init_fields)
  have h5: "compute_surface_slope ?s (replicate 1875 900) = Inr 0"
    by (rule slope_flat) (simp_all add: Lander_init_fields)
  have r: "ratio_sum 0 ?s = 12 / 10"
    by (simp add: ratio_sum_level Lander_init_fields)
  show ?thesis
    unfolding collision_check_first[OF h1 h2 h3 h5]
    by (simp add: r ratio_sum_level first_contact_def crash_def report_get_def Let_def
        Lander_init_fields)
qed




section \<open>Invariants of the physics step and of the loop\<close>

lemma life_support_fields:
  "angle (life_support dt s) = angle s" "damage (life_support dt s) = damage s"
  "crashed (life_support dt s) = crashed s" "landed (life_support dt s) = landed s"
  "contact_screen (life_support dt s) = contact_screen s"
  "engine_out (life_support dt s) = engine_out s"
  by (simp_all add: life_support_def Let_def)

lemma life_support_ok:
  assumes "0 \<le> dt" and "resources_ok s"
  shows "resources_ok (life_support dt s)"
  using assms
  by (simp add: life_support_def resources_ok_def Let_def OXYGEN_DRAIN_RATE_def
      BATTERY_DRAIN_RATE_def APU_FUEL_RATE_def APU_RECHARGE_RATE_def MAX_BATTERY_def
      MAX_OXYGEN_def FUEL_START_def)

lemma rotational_fields:
  "oxygen (rotational k dt s) = oxygen s" "battery (rotational k dt s) = battery s"
  "fuel (rotational k dt s) = fuel s" "damage (rotational k dt s) = damage s"
  "crashed (rotational k dt s) = crashed s" "landed (rotational k dt s) = landed s"
  "contact_screen (rotational k dt s) = contact_screen s"
  "engine_out (rotational k dt s) = engine_out s"
  by (simp_all add: rotational_def Let_def)



lemma burn_nonneg:
  assumes "0 \<le> dt"
  shows "0 \<le> MAX_THRUST * th / (ISP * G0_MOON) * dt * th"
proof -
  have e: "MAX_THRUST * th / (ISP * G0_MOON) * dt * th
          = (MAX_THRUST / (ISP * G0_MOON)) * (dt * (th * th))"
    by simp
  have "0 \<le> MAX_THRUST / (ISP * G0_MOON)"
    by (simp add: MAX_THRUST_def ISP_def G0_MOON_def)
  moreover have "0 \<le> dt * (th * th)" using assms by simp
  ultimately have "0 \<le> (MAX_THRUST / (ISP * G0_MOON)) * (dt * (th * th))"
    by (rule mult_nonneg_nonneg)
  then show ?thesis by (simp only: e)
qed

lemma select_throttle_fields:
  "oxygen (select_throttle k s) = oxygen s" "battery (select_throttle k s) = battery s"
  "fuel (select_throttle k s) = fuel s" "damage (select_throttle k s) = damage s"
  "angle (select_throttle k s) = angle s" "engine_out (select_throttle k s) = engine_out s"
  "engine_on (select_throttle k s) = engine_on s"
  by (simp_all add: select_throttle_def)

lemma engine_step_fields:
  "oxygen (fst (engine_step k dt s)) = oxygen s"
  "battery (fst (engine_step k dt s)) = battery s"
  "damage (fst (engine_step k dt s)) = damage s"
  "angle (fst (engine_step k dt s)) = angle s"
  by (simp_all add: engine_step_def Let_def)

lemma engine_step_fuel:
  assumes "0 \<le> dt" and "0 \<le> fuel s"
  shows "0 \<le> fuel (fst (engine_step k dt s)) \<and> fuel (fst (engine_step k dt s)) \<le> fuel s"
proof -
  have "0 \<le> MAX_THRUST * throttle s / (ISP * G0_MOON) * dt * throttle s"
    by (rule burn_nonneg[OF assms(1)])
  then show ?thesis using assms(2)
    by (simp add: engine_step_def Let_def)
qed

lemma engine_step_engine_out:
  "engine_out s \<Longrightarrow> engine_out (fst (engine_step k dt s))"
  by (simp add: engine_step_def Let_def)

lemma flight_step_fields:
  "oxygen (flight_step k dt s) = oxygen s"
  "battery (flight_step k dt s) = battery s"
  "damage (flight_step k dt s) = damage s"
  "angle (flight_step k dt s) = angle s"
  "fuel (flight_step k dt s) = fuel (fst (engine_step k dt (select_throttle k s)))"
  "engine_out (flight_step k dt s) = engine_out (fst (engine_step k dt (select_throttle k s)))"
  by (simp_all add: flight_step_def Let_def split_beta engine_step_fields select_throttle_fields)

lemma liftoff_step_fields:
  "oxygen (liftoff_step k dt s) = oxygen s"
  "battery (liftoff_step k dt s) = battery s"
  "damage (liftoff_step k dt s) = damage s"
  "angle (liftoff_step k dt s) = angle s"
  "engine_out (liftoff_step k dt s) = engine_out s"
  "contact_screen (liftoff_step k dt s) = contact_screen s"
  "landed (liftoff_step k dt s) = False"
  "engine_on (liftoff_step k dt s) = True"
  "fuel (liftoff_step k dt s)
     = max (fuel s - MAX_THRUST * throttle s / (ISP * G0_MOON) * dt * throttle s) 0"
  by (simp_all add: liftoff_step_def Let_def)

lemma pivot_step_fields:
  assumes "pivot_step dt p s = Inr s'"
  shows "oxygen s' = oxygen s" "battery s' = battery s" "fuel s' = fuel s"
    "damage s' = damage s" "engine_out s' = engine_out s"
    "0 \<le> angle s' \<and> angle s' \<le> 360"
  using assms
  by (auto simp add: pivot_step_def Let_def py_mod_360 split: if_splits)


lemma contact_step_fields:
  assumes "contact_step k dt topo p s = Inr s'"
  shows "oxygen s' = oxygen s" "battery s' = battery s" "damage s' = damage s"
    "engine_out s' = engine_out s"
  using assms
  by (auto simp add: contact_step_def Let_def liftoff_step_fields pivot_step_fields
      split: sum.splits if_splits)

lemma contact_step_fuel:
  assumes "contact_step k dt topo p s = Inr s'" and "0 \<le> dt" and "0 \<le> fuel s"
  shows "0 \<le> fuel s' \<and> fuel s' \<le> fuel s"
  using assms burn_nonneg[OF assms(2), of "throttle s"]
  by (auto simp add: contact_step_def Let_def liftoff_step_fields pivot_step_fields
      split: sum.splits if_splits)


lemma update_physics_flight:
  assumes "\<not> crashed s" and "contact_screen s = None" and "\<not> landed s"
  shows "update_physics k dt topo s
           = Inr (flight_step k dt (rotational k dt (life_support dt s)))"
  using assms
  by (simp add: update_physics_def Let_def TIME_SCALE_def rotational_fields life_support_fields)

lemma update_physics_contact:
  assumes "\<not> crashed s" and "contact_screen s = Some p"
  shows "update_physics k dt topo s
           = contact_step k dt topo p (rotational k dt (life_support dt s))"
  using assms
  by (simp add: update_physics_def Let_def TIME_SCALE_def rotational_fields life_support_fields)

lemma update_physics_crashed:
  "crashed s \<Longrightarrow> update_physics k dt topo s = Inr s"
  by (simp add: update_physics_def Let_def)

lemma update_physics_rest:
  assumes "\<not> crashed s" and "contact_screen s = None" and "landed s"
  shows "update_physics k dt topo s = Inr (rotational k dt (life_support dt s))"
  using assms
  by (simp add: update_physics_def Let_def TIME_SCALE_def rotational_fields life_support_fields)

lemma update_physics_cases:
  assumes "update_physics k dt topo s = Inr s'"
  obtains (crashed) "crashed s" "s' = s"
  | (flight) "\<not> crashed s" "contact_screen s = None" "\<not> landed s"
      "s' = flight_step k dt (rotational k dt (life_support dt s))"
  | (contact) p where "\<not> crashed s" "contact_screen s = Some p"
      "contact_step k dt topo p (rotational k dt (life_support dt s)) = Inr s'"
  | (rest) "\<not> crashed s" "contact_screen s = None" "landed s"
      "s' = rotational k dt (life_support dt s)"
proof (cases "crashed s")
  case True
  with assms have "s' = s" by (simp add: update_physics_crashed)
  with True show ?thesis by (rule crashed)
next
  case nc: False
  show ?thesis
  proof (cases "contact_screen s")
    case None
    show ?thesis
    proof (cases "landed s")
      case True
      from assms have "s' = rotational k dt (life_support dt s)"
        by (simp add: update_physics_rest[OF nc None True])
      with nc None True show ?thesis by (rule rest)
    next
      case False
      from assms have "s' = flight_step k dt (rotational k dt (life_support dt s))"
        by (simp add: update_physics_flight[OF nc None False])
      with nc None False show ?thesis by (rule flight)
    qed
  next
    case (Some p)
    from assms have "contact_step k dt topo p (rotational k dt (life_support dt s)) = Inr s'"
      by (simp add: update_physics_contact[OF nc Some])
    with nc Some show ?thesis by (rule contact)
  qed
qed

lemma update_physics_ok:
  assumes "0 \<le> dt" and "resources_ok s" and "update_physics k dt topo s = Inr s'"
  shows "resources_ok s' \<and> damage s' = damage s"
  using assms(3)
proof (cases rule: update_physics_cases)
  case crashed
  with assms(2) show ?thesis by simp
next
  case flight
  let ?r = "rotational k dt (life_support dt s)"
  have ok: "resources_ok (life_support dt s)" by (rule life_support_ok[OF assms(1,2)])
  then have "0 \<le> fuel (select_throttle k ?r)"
    by (simp add: resources_ok_def select_throttle_fields rotational_fields)
  from engine_step_fuel[OF assms(1) this, of k]
  show ?thesis using ok flight(4)
    by (simp add: resources_ok_def flight_step_fields rotational_fields select_throttle_fields
        life_support_fields)
next
  case (contact p)
  let ?r = "rotational k dt (life_support dt s)"
  have ok: "resources_ok (life_support dt s)" by (rule life_support_ok[OF assms(1,2)])
  then have "0 \<le> fuel ?r" by (simp add: resources_ok_def rotational_fields)
  from contact_step_fuel[OF contact(3) assms(1) this] contact_step_fields[OF contact(3)]
  show ?thesis using ok
    by (simp add: resources_ok_def rotational_fields life_support_fields)
next
  case rest
  have ok: "resources_ok (life_support dt s)" by (rule life_support_ok[OF assms(1,2)])
  then show ?thesis using rest(4)
    by (simp add: resources_ok_def rotational_fields life_support_fields)
qed

lemma crash_fields:
  "oxygen (crash r t s) = oxygen s" "battery (crash r t s) = battery s"
  "fuel (crash r t s) = fuel s" "damage (crash r t s) = damage s"
  "crashed (crash r t s) = True" "contact_screen (crash r t s) = contact_screen s"
  by (simp_all add: crash_def Let_def)

lemma crash_ok: "resources_ok (crash r t s) = resources_ok s"
  by (simp add: resources_ok_def crash_fields)

lemma first_contact_ok:
  assumes "resources_ok s"
  shows "resources_ok (first_contact slope sp t s) \<and> damage s \<le> damage (first_contact slope sp t s)"
proof (cases "1 / 4 < ratio_sum slope s")
  case True
  let ?s1 = "s\<lparr>damage := min (damage s + ratio_sum slope s * 100) 100\<rparr>"
  have ok1: "resources_ok ?s1 \<and> damage s \<le> damage ?s1"
    using assms True by (simp add: resources_ok_def)
  have "first_contact slope sp t s = crash ''STRUCTURAL DAMAGE'' t ?s1
        \<or> first_contact slope sp t s = crash ''HARD LANDING'' t ?s1
        \<or> first_contact slope sp t s = ?s1"
    using True by (simp add: first_contact_def Let_def)
  then show ?thesis using ok1 by (auto simp add: crash_ok crash_fields)
next
  case False
  then have "ratio_sum slope s \<le> 1 / 4" by simp
  from first_contact_soft(1)[OF this, of sp t] assms show ?thesis
    using False by (simp add: resources_ok_def first_contact_def Let_def)
qed

lemma collision_check_ok:
  assumes "resources_ok s" and "collision_check f k topo off sp s = Inr s'"
  shows "resources_ok s' \<and> damage s \<le> damage s'"
proof (cases "rock_hit f")
  case True
  with assms(2) have "s' = crash ''CRASHED INTO ROCKS'' (now f) s"
    by (simp add: collision_check_def)
  with assms(1) show ?thesis by (simp add: crash_ok crash_fields)
next
  case nr: False
  from assms(2) nr obtain slope where sl: "compute_surface_slope s topo = Inr slope"
    by (cases "compute_surface_slope s topo") (simp_all add: collision_check_def)
  let ?s2 = "s\<lparr>contact_slope := Some slope,
               world_x := Some (of_int (rect_left f) + off), world_y := Some (rect_top f)\<rparr>"
  have ok2: "resources_ok ?s2" "damage ?s2 = damage s"
    using assms(1) by (simp_all add: resources_ok_def)
  show ?thesis
  proof (cases "contact f")
    case None
    with assms(2) nr sl have "s' = ?s2\<lparr>contact_screen := None\<rparr> \<or> s' = ?s2"
      by (auto simp add: collision_check_def Let_def split: if_splits)
    then show ?thesis using ok2 by (auto simp add: resources_ok_def)
  next
    case (Some c)
    show ?thesis
    proof (cases "contact_screen s")
      case None
      from collision_check_first[OF nr Some None sl, of k off sp] assms(2)
      have e: "s' = first_contact slope sp (now f)
                 (?s2\<lparr>contact_screen := Some (rect_left f + fst c, rect_top f + snd c)\<rparr>)"
        by simp
      let ?s3 = "?s2\<lparr>contact_screen := Some (rect_left f + fst c, rect_top f + snd c)\<rparr>"
      have "resources_ok ?s3" and d3: "damage ?s3 = damage s"
        using assms(1) by (simp_all add: resources_ok_def)
      from first_contact_ok[OF this(1), of slope sp "now f"] show ?thesis
        unfolding e d3 .
    next
      case (Some p)
      with assms(2) nr sl \<open>contact f = Some c\<close> have "s' = ?s2"
        by (cases c) (simp add: collision_check_def Let_def)
      then show ?thesis using ok2 by simp
    qed
  qed
qed

lemma draw_fields:
  "oxygen (draw off s) = oxygen s" "battery (draw off s) = battery s"
  "fuel (draw off s) = fuel s" "damage (draw off s) = damage s"
  by (simp_all add: draw_def)

lemma draw_ok: "resources_ok (draw off s) = resources_ok s"
  by (simp add: resources_ok_def draw_fields)

lemma tick_ok:
  assumes "0 \<le> tick_dt i" and "resources_ok s" and "tick topo i s = Inr s'"
  shows "resources_ok s' \<and> damage s \<le> damage s'"
proof -
  from assms(3) obtain s1 where up: "update_physics (tick_keys i) (tick_dt i) topo s = Inr s1"
    by (cases "update_physics (tick_keys i) (tick_dt i) topo s") (simp_all add: tick_def)
  from update_physics_ok[OF assms(1,2) up]
  have ok1: "resources_ok s1" and d1: "damage s1 = damage s" by simp_all
  let ?s2 = "draw (compute_camera_offset (x s1)) s1"
  have ok2: "resources_ok ?s2" and d2: "damage ?s2 = damage s"
    using ok1 d1 by (simp_all add: draw_ok draw_fields)
  show ?thesis
  proof (cases "landed ?s2 \<or> crashed ?s2")
    case True
    with assms(3) up have "s' = ?s2" by (auto simp add: tick_def Let_def)
    with ok2 d2 show ?thesis by simp
  next
    case False
    with assms(3) up
    have "collision_check (tick_frame i) (tick_keys i) topo (compute_camera_offset (x s1))
            (tick_special_hit i) ?s2 = Inr s'"
      by (simp add: tick_def Let_def)
    from collision_check_ok[OF ok2 this] d2 show ?thesis by simp
  qed
qed


lemma life_support_more_fields:
  "x (life_support dt s) = x s" "vx (life_support dt s) = vx s" "img_w (life_support dt s) = img_w s"
  "img_h (life_support dt s) = img_h s"
  by (simp_all add: life_support_def Let_def)

lemma rotational_more_fields:
  "x (rotational k dt s) = x s" "vx (rotational k dt s) = vx s" "img_w (rotational k dt s) = img_w s"
  "img_h (rotational k dt s) = img_h s"
  by (simp_all add: rotational_def Let_def)

lemma flight_step_coast:
  assumes "\<not> K_UP k"
  shows "x (flight_step k dt s) = x s + vx s * dt * px_per_m s"
    and "img_w (flight_step k dt s) = img_w s"
    and "contact_screen (flight_step k dt s) = contact_screen s"
    and "landed (flight_step k dt s) = landed s"
    and "crashed (flight_step k dt s) = crashed s"
  using assms
  by (simp_all add: flight_step_def engine_step_def select_throttle_def Let_def px_per_m_def)

lemma draw_more_fields:
  "x (draw off s) = x s" "img_w (draw off s) = img_w s"
  "contact_screen (draw off s) = contact_screen s" "landed (draw off s) = landed s"
  "crashed (draw off s) = crashed s"
  by (simp_all add: draw_def)

lemma slope_flat_600:
  assumes "x s = 600" and "img_w s = 64"
  shows "compute_surface_slope s (replicate 1875 900) = Inr 0"
proof -
  have "\<lfloor>(632::real) / 8\<rfloor> = 79" by (simp add: floor_eq_iff)
  then show ?thesis
    by (simp add: compute_surface_slope_def assms py_floordiv_def py_int_def PIXEL_SIZE_def
        py_get_def Let_def atan2_def degrees_def)
qed

lemma tick_coast:
  "\<exists>s'. tick (replicate 1875 900)
           \<lparr>tick_keys = \<lparr>K_LEFT = False, K_RIGHT = False, K_UP = False,
                         K_1 = False, K_2 = False, K_3 = False\<rparr>,
            tick_dt = 1,
            tick_frame = \<lparr>rock_hit = False, rect_left = 468, rect_top = 266,
                          contact = None, now = 1000\<rparr>,
            tick_special_hit = False\<rparr>
           (Lander_init 64 70) = Inr s'
      \<and> \<not> crashed s' \<and> contact_screen s' = None \<and> \<not> landed s'"
proof -
  let ?k = "\<lparr>K_LEFT = False, K_RIGHT = False, K_UP = False, K_1 = False, K_2 = False, K_3 = False\<rparr>"
  let ?s = "Lander_init 64 70"
  let ?a = "flight_step ?k 1 (rotational ?k 1 (life_support 1 ?s))"
  have up: "update_physics ?k 1 (replicate 1875 900) ?s = Inr ?a"
    by (rule update_physics_flight) (simp_all add: Lander_init_fields)
  have nk: "\<not> K_UP ?k" by simp
  have xa: "x ?a = 600" and wa: "img_w ?a = 64"
    and fa: "contact_screen ?a = None" "\<not> landed ?a" "\<not> crashed ?a"
    by (simp_all add: flight_step_coast[OF nk] rotational_more_fields rotational_fields
        life_support_more_fields life_support_fields Lander_init_fields px_per_m_def
        LANDER_HEIGHT_M_def)
  let ?d = "draw (compute_camera_offset (x ?a)) ?a"
  have sl: "compute_surface_slope ?d (replicate 1875 900) = Inr 0"
    by (rule slope_flat_600) (simp_all add: draw_more_fields xa wa)
  show ?thesis
    by (simp add: tick_def up Let_def draw_more_fields fa collision_check_def sl)
qed


lemma tick_rock:
  assumes "\<not> crashed s" and "contact_screen s = None" and "\<not> landed s"
    and "rock_hit (tick_frame i)"
  shows "\<exists>s'. tick topo i s = Inr s'"
  by (simp add: tick_def update_physics_flight[OF assms(1,2,3)] Let_def collision_check_def
      assms(4))

text \<open>
  Claim C9. Along every finite run of the simulation loop whose frame times are not
  negative, from a state whose resources are in range, the oxygen stays within
  \<open>[0, MAX_OXYGEN]\<close>, the battery within \<open>[0, MAX_BATTERY]\<close>, the fuel within
  \<open>[0, FUEL_START]\<close> and the damage within \<open>[0, 100]\<close>, and the damage does not
  decrease. A run is a sequence of ticks, each \<open>update_physics\<close> followed by the drawing
  and by \<open>collision_check\<close> (which the loop skips once the lander is landed or crashed).
\<close>

theorem resources_stay_in_range:
  assumes "resources_ok s" and "\<forall>i \<in> set ticks. 0 \<le> tick_dt i"
    and "run topo ticks s = Inr s'"
  shows "resources_ok s' \<and> damage s \<le> damage s'"
  using assms
proof (induction ticks arbitrary: s)
  case Nil
  then show ?case by simp
next
  case (Cons i ticks)
  from Cons.prems(3) obtain s1 where t: "tick topo i s = Inr s1"
    and r: "run topo ticks s1 = Inr s'"
    by (cases "tick topo i s") simp_all
  from Cons.prems(2) have dt: "0 \<le> tick_dt i" and rest: "\<forall>i \<in> set ticks. 0 \<le> tick_dt i"
    by simp_all
  from tick_ok[OF dt Cons.prems(1) t] have ok1: "resources_ok s1" and d1: "damage s \<le> damage s1"
    by simp_all
  from Cons.IH[OF ok1 rest r] d1 show ?case by simp
qed

theorem resources_stay_in_range_witness:
  "\<exists>s'. run (replicate 1875 900)
           [\<lparr>tick_keys = \<lparr>K_LEFT = False, K_RIGHT = False, K_UP = False,
                          K_1 = False, K_2 = False, K_3 = False\<rparr>,
             tick_dt = 1,
             tick_frame = \<lparr>rock_hit = False, rect_left = 468, rect_top = 266,
                           contact = None, now = 1000\<rparr>,
             tick_special_hit = False\<rparr>,
            \<lparr>tick_keys = \<lparr>K_LEFT = False, K_RIGHT = False, K_UP = True,
                          K_1 = False, K_2 = False, K_3 = False\<rparr>,
             tick_dt = 1 / 2,
             tick_frame = \<lparr>rock_hit = True, rect_left = 468, rect_top = 280,
                           contact = None, now = 1500\<rparr>,
             tick_special_hit = False\<rparr>]
           (Lander_init 64 70) = Inr s'
      \<and> resources_ok (Lander_init 64 70)
      \<and> resources_ok s' \<and> damage (Lander_init 64 70) \<le> damage s'"
proof -
  let ?i1 = "\<lparr>tick_keys = \<lparr>K_LEFT = False, K_RIGHT = False, K_UP = False,
                          K_1 = False, K_2 = False, K_3 = False\<rparr>,
             tick_dt = 1,
             tick_frame = \<lparr>rock_hit = False, rect_left = 468, rect_top = 266,
                           contact = None, now = 1000\<rparr>,
             tick_special_hit = False\<rparr>"
  let ?i2 = "\<lparr>tick_keys = \<lparr>K_LEFT = False, K_RIGHT = False, K_UP = True,
                          K_1 = False, K_2 = False, K_3 = False\<rparr>,
             tick_dt = 1 / 2,
             tick_frame = \<lparr>rock_hit = True, rect_left = 468, rect_top = 280,
                           contact = None, now = 1500\<rparr>,
             tick_special_hit = False\<rparr>"
  from tick_coast obtain s1 where t1: "tick (replicate 1875 900) ?i1 (Lander_init 64 70) = Inr s1"
    and f1: "\<not> crashed s1" "contact_screen s1 = None" "\<not> landed s1"
    by blast
  have "rock_hit (tick_frame ?i2)" by simp
  from tick_rock[OF f1 this] obtain s2 where t2: "tick (replicate 1875 900) ?i2 s1 = Inr s2"
    by blast
  have r: "run (replicate 1875 900) [?i1, ?i2] (Lander_init 64 70) = Inr s2"
    by (simp add: t1 t2)
  have ok: "resources_ok (Lander_init 64 70)"
    by (simp add: resources_ok_def Lander_init_fields MAX_OXYGEN_def MAX_BATTERY_def
        FUEL_START_def)
  have dts: "\<forall>i \<in> set [?i1, ?i2]. 0 \<le> tick_dt i" by simp
  from resources_stay_in_range[OF ok dts r] r ok show ?thesis by blast
qed




section \<open>The engine start limit and the pivot\<close>

lemma Lander_init_more_fields:
  "gravity_center (Lander_init 64 70) = (532, 285)"
  "vx (Lander_init w h) = 10" "ax (Lander_init w h) = 0" "ay (Lander_init w h) = 0"
  by (simp_all add: Lander_init_def reset_def Let_def SCREEN_SIZE_def py_int_def
      LANDER_VX_ENTRY_def)

lemma life_support_fresh:
  assumes "battery s = 100" and "\<not> apu_on s"
  shows "life_support 1 s = s\<lparr>oxygen := max (oxygen s - 3 / 2) 0, battery := 95\<rparr>"
  using assms
  by (simp add: life_support_def Let_def OXYGEN_DRAIN_RATE_def BATTERY_DRAIN_RATE_def
      MAX_BATTERY_def)

text \<open>
  The start attempts in flight: with the thrust key down, fuel left, the engine off and
  not failed, the engine step counts one more attempt; below the limit the engine comes
  on, at the limit it fails and leaves the failure report. A failed engine stays failed
  through \<open>update_physics\<close>.
\<close>

lemma engine_step_start_attempt:
  assumes "K_UP k" and "0 < fuel s" and "\<not> engine_out s" and "\<not> engine_on s"
  shows "engine_startup_count (fst (engine_step k dt s)) = engine_startup_count s + 1"
    and "engine_startup_count s + 1 < ENGINE_STARTUP_LIMIT \<Longrightarrow>
           engine_on (fst (engine_step k dt s)) \<and> \<not> engine_out (fst (engine_step k dt s))"
    and "ENGINE_STARTUP_LIMIT \<le> engine_startup_count s + 1 \<Longrightarrow>
           \<not> engine_on (fst (engine_step k dt s)) \<and> engine_out (fst (engine_step k dt s))
           \<and> report (fst (engine_step k dt s)) = Some [(''ENGINE FAILURE'', Str ''START_UP'')]"
  using assms by (simp_all add: engine_step_def Let_def)

lemma update_physics_engine_out:
  assumes "engine_out s" and "update_physics k dt topo s = Inr s'"
  shows "engine_out s'"
  using assms(2)
proof (cases rule: update_physics_cases)
  case crashed
  with assms(1) show ?thesis by simp
next
  case flight
  have "engine_out (select_throttle k (rotational k dt (life_support dt s)))"
    using assms(1) by (simp add: select_throttle_fields rotational_fields life_support_fields)
  then show ?thesis
    unfolding flight(4) flight_step_fields by (rule engine_step_engine_out)
next
  case (contact p)
  from contact_step_fields(4)[OF contact(3)] assms(1) show ?thesis
    by (simp add: rotational_fields life_support_fields)
next
  case rest
  with assms(1) show ?thesis by (simp add: rotational_fields life_support_fields)
qed

text \<open>
  Claim C3, at the tick of the failing start attempt. A fresh lander in flight with four
  start attempts behind it (the limit is 5), engine off, thrust key down, frame time 1:
  the step disables the engine and leaves the failure report, and it also burns fuel
  (from 2000 down by \<open>45000 / (311 * 1.62)\<close>) and applies the thrust to the vertical
  acceleration, which ends below lunar gravity.
\<close>

theorem engine_failure_tick_still_fires:
  "\<not> isl (update_physics
            \<lparr>K_LEFT = False, K_RIGHT = False, K_UP = True, K_1 = False, K_2 = False, K_3 = False\<rparr>
            1 (replicate 1875 900) ((Lander_init 64 70)\<lparr>engine_startup_count := 4\<rparr>))
   \<and> engine_out (projr (update_physics
            \<lparr>K_LEFT = False, K_RIGHT = False, K_UP = True, K_1 = False, K_2 = False, K_3 = False\<rparr>
            1 (replicate 1875 900) ((Lander_init 64 70)\<lparr>engine_startup_count := 4\<rparr>)))
   \<and> \<not> engine_on (projr (update_physics
            \<lparr>K_LEFT = False, K_RIGHT = False, K_UP = True, K_1 = False, K_2 = False, K_3 = False\<rparr>
            1 (replicate 1875 900) ((Lander_init 64 70)\<lparr>engine_startup_count := 4\<rparr>)))
   \<and> report (projr (update_physics
            \<lparr>K_LEFT = False, K_RIGHT = False, K_UP = True, K_1 = False, K_2 = False, K_3 = False\<rparr>
            1 (replicate 1875 900) ((Lander_init 64 70)\<lparr>engine_startup_count := 4\<rparr>)))
       = Some [(''ENGINE FAILURE'', Str ''START_UP'')]
   \<and> fuel ((Lander_init 64 70)\<lparr>engine_startup_count := 4\<rparr>) = 2000
   \<and> fuel (projr (update_physics
            \<lparr>K_LEFT = False, K_RIGHT = False, K_UP = True, K_1 = False, K_2 = False, K_3 = False\<rparr>
            1 (replicate 1875 900) ((Lander_init 64 70)\<lparr>engine_startup_count := 4\<rparr>)))
       = 2000 - 45000 / (311 * (162 / 100))
   \<and> ay (projr (update_physics
            \<lparr>K_LEFT = False, K_RIGHT = False, K_UP = True, K_1 = False, K_2 = False, K_3 = False\<rparr>
            1 (replicate 1875 900) ((Lander_init 64 70)\<lparr>engine_startup_count := 4\<rparr>)))
       = G0_MOON - 45000 / (13000 + (2000 - 45000 / (311 * (162 / 100))))"
proof -
  let ?k = "\<lparr>K_LEFT = False, K_RIGHT = False, K_UP = True, K_1 = False, K_2 = False, K_3 = False\<rparr>"
  let ?s = "(Lander_init 64 70)\<lparr>engine_startup_count := 4\<rparr>"
  have up: "update_physics ?k 1 (replicate 1875 900) ?s
              = Inr (flight_step ?k 1 (rotational ?k 1 (life_support 1 ?s)))"
    by (rule update_physics_flight) (simp_all add: Lander_init_fields)
  have ls: "life_support 1 ?s = ?s\<lparr>oxygen := max (oxygen ?s - 3 / 2) 0, battery := 95\<rparr>"
    by (rule life_support_fresh) (simp_all add: Lander_init_fields)
  have m: "py_mod 0 360 = 0" by (simp add: py_mod_small)
  show ?thesis
    unfolding up ls
    by (simp add: flight_step_def engine_step_def select_throttle_def rotational_def Let_def
        Lander_init_fields m ENGINE_STARTUP_LIMIT_def MAX_THRUST_def ISP_def G0_MOON_def
        ROTATION_TORQUE_def ANGULAR_INERTIA_def mass_def DRY_MASS_def radians_def)
qed

text \<open>
  The pivot divides by the pixel scale and by the length \<open>R\<close> of the lever arm from the
  contact point to the recorded gravity centre, with no guard. The step raises exactly
  when the sprite height is zero or the contact point is the pixel of the gravity centre.
  Both pixels are recorded from pygame's rectangle and mask overlap, which are inputs
  here.
\<close>

lemma pivot_step_raises_iff:
  "isl (pivot_step dt p s) = (px_per_m s = 0 \<or> gravity_center s = p)"
proof (cases "px_per_m s = 0")
  case True
  then show ?thesis by (simp add: pivot_step_def Let_def)
next
  case False
  let ?dx = "real_of_int (fst (gravity_center s) - fst p) / px_per_m s"
  let ?dy = "real_of_int (snd (gravity_center s) - snd p) / px_per_m s"
  have "(hypot ?dx ?dy = 0) = (?dx = 0 \<and> ?dy = 0)"
    by (simp only: hypot_def real_sqrt_eq_zero_cancel_iff sum_power2_eq_zero_iff)
  also have "\<dots> = (fst (gravity_center s) = fst p \<and> snd (gravity_center s) = snd p)"
    using False by simp
  also have "\<dots> = (gravity_center s = p)" by (simp add: prod_eq_iff)
  finally have h: "(hypot ?dx ?dy = 0) = (gravity_center s = p)" .
  show ?thesis
  proof (cases "gravity_center s = p")
    case True
    with h have "hypot ?dx ?dy = 0" by simp
    then show ?thesis using False True by (simp add: pivot_step_def Let_def)
  next
    case ne: False
    with h have "hypot ?dx ?dy \<noteq> 0" by simp
    then show ?thesis using False ne by (simp add: pivot_step_def Let_def)
  qed
qed

section \<open>Lift-off from the ground\<close>

lemma life_support_motion_fields:
  "vy (life_support dt s) = vy s" "throttle (life_support dt s) = throttle s"
  "ax (life_support dt s) = ax s" "ay (life_support dt s) = ay s"
  by (simp_all add: life_support_def Let_def)

lemma rotational_motion_fields:
  "vy (rotational k dt s) = vy s" "throttle (rotational k dt s) = throttle s"
  by (simp_all add: rotational_def Let_def)

lemma liftoff_step_motion:
  "ax (liftoff_step k dt s)
     = MAX_THRUST * throttle s / mass (liftoff_step k dt s) * - sin (radians (angle s))"
  "ay (liftoff_step k dt s)
     = MAX_THRUST * throttle s / mass (liftoff_step k dt s) * - cos (radians (angle s))"
  "vx (liftoff_step k dt s) = vx s + ax (liftoff_step k dt s) * dt"
  "vy (liftoff_step k dt s) = vy s - \<bar>ay (liftoff_step k dt s) * dt\<bar>"
  "crashed (liftoff_step k dt s) = crashed s"
  "x (liftoff_step k dt s) = x s + vx (liftoff_step k dt s) * dt * px_per_m s"
  "img_w (liftoff_step k dt s) = img_w s"
  by (simp_all add: liftoff_step_def Let_def mass_def px_per_m_def)

lemma update_physics_liftoff:
  assumes "contact_screen s = Some p" and "\<not> crashed s" and "K_UP k"
    and "0 < fuel (life_support dt s)" and "\<not> engine_out s"
    and "update_physics k dt topo s = Inr s1"
  shows "s1 = liftoff_step k dt
                ((rotational k dt (life_support dt s))
                   \<lparr>angular_velocity := 0, engine_on := False, ax := 0, ay := 0\<rparr>)"
proof -
  let ?r = "rotational k dt (life_support dt s)"
  from assms(6) have cs: "contact_step k dt topo p ?r = Inr s1"
    by (simp add: update_physics_contact[OF assms(2,1)])
  then obtain sl where "compute_surface_slope ?r topo = Inr sl"
    by (cases "compute_surface_slope ?r topo") (simp_all add: contact_step_def)
  with cs assms(3,4,5) show ?thesis
    by (simp add: contact_step_def Let_def rotational_fields life_support_fields)
qed

lemma collision_check_in_contact:
  assumes "\<not> rock_hit f" and "contact_screen s = Some p"
    and "collision_check f k topo off sp s = Inr s'"
  shows "contact_screen s' = (if contact f = None \<and> K_UP k then None else Some p)"
    and "engine_on s' = engine_on s" "landed s' = landed s" "crashed s' = crashed s"
    and "vx s' = vx s" "vy s' = vy s" "ax s' = ax s" "ay s' = ay s" "fuel s' = fuel s"
    and "angle s' = angle s"
proof -
  from assms(1,3) obtain sl where sl: "compute_surface_slope s topo = Inr sl"
    by (cases "compute_surface_slope s topo") (simp_all add: collision_check_def)
  let ?s2 = "s\<lparr>contact_slope := Some sl,
               world_x := Some (of_int (rect_left f) + off), world_y := Some (rect_top f)\<rparr>"
  have e: "s' = (if contact f = None \<and> K_UP k then ?s2\<lparr>contact_screen := None\<rparr> else ?s2)"
  proof (cases "contact f")
    case None
    with assms sl show ?thesis by (auto simp add: collision_check_def Let_def)
  next
    case (Some c)
    with assms sl show ?thesis by (cases c) (simp add: collision_check_def Let_def)
  qed
  show "contact_screen s' = (if contact f = None \<and> K_UP k then None else Some p)"
    and "engine_on s' = engine_on s" "landed s' = landed s" "crashed s' = crashed s"
    and "vx s' = vx s" "vy s' = vy s" "ax s' = ax s" "ay s' = ay s" "fuel s' = fuel s"
    and "angle s' = angle s"
    using assms(2) by (simp_all add: e)
qed


lemma tick_liftoff_returns:
  "\<exists>s'. tick (replicate 1875 900)
           \<lparr>tick_keys = \<lparr>K_LEFT = False, K_RIGHT = False, K_UP = True,
                         K_1 = False, K_2 = False, K_3 = False\<rparr>,
            tick_dt = 1 / 60,
            tick_frame = \<lparr>rock_hit = False, rect_left = 468, rect_top = 250,
                          contact = Some (32, 69), now = 1000\<rparr>,
            tick_special_hit = False\<rparr>
           ((Lander_init 64 70)\<lparr>vx := 0, vy := 0, contact_screen := Some (500, 319)\<rparr>)
         = Inr s'
      \<and> contact_screen s' = Some (500, 319)"
proof -
  let ?k = "\<lparr>K_LEFT = False, K_RIGHT = False, K_UP = True, K_1 = False, K_2 = False, K_3 = False\<rparr>"
  let ?f = "\<lparr>rock_hit = False, rect_left = 468, rect_top = 250, contact = Some (32, 69), now = 1000\<rparr>"
  let ?s = "(Lander_init 64 70)\<lparr>vx := 0, vy := 0, contact_screen := Some (500, 319)\<rparr>"
  let ?r = "rotational ?k (1 / 60) (life_support (1 / 60) ?s)"
  let ?c = "?r\<lparr>angular_velocity := 0, engine_on := False, ax := 0, ay := 0\<rparr>"
  let ?a = "liftoff_step ?k (1 / 60) ?c"
  have fr: "fuel ?r = 2000" "\<not> engine_out ?r" "x ?r = 500" "img_w ?r = 64" "vx ?r = 0"
    "img_h ?r = 70"
    by (simp_all add: rotational_fields rotational_more_fields life_support_fields
        life_support_more_fields life_support_def Let_def Lander_init_fields
        BATTERY_DRAIN_RATE_def MAX_BATTERY_def)
  have "py_mod 0 360 = 0" by (simp add: py_mod_small)
  then have an: "angle ?r = 0"
    by (simp add: rotational_def life_support_def Let_def Lander_init_fields)
  have sl: "compute_surface_slope ?r (replicate 1875 900) = Inr 0"
    by (rule slope_flat) (simp_all add: fr)
  have up: "update_physics ?k (1 / 60) (replicate 1875 900) ?s = Inr ?a"
    by (simp add: update_physics_contact[of ?s "(500, 319)"] Lander_init_fields
        contact_step_def sl Let_def fr)
  have xa: "x ?a = 500" "img_w ?a = 64"
    by (simp_all add: liftoff_step_motion an fr radians_def)
  have fa: "\<not> landed ?a" "\<not> crashed ?a" "contact_screen ?a = Some (500, 319)"
    by (simp_all add: liftoff_step_fields liftoff_step_motion rotational_fields
        life_support_fields Lander_init_fields)
  have d: "draw (compute_camera_offset (x ?a)) ?a = ?a" using fa by (simp add: draw_def)
  have sa: "compute_surface_slope ?a (replicate 1875 900) = Inr 0"
    by (rule slope_flat) (simp_all add: xa)
  show ?thesis
    by (simp add: tick_def up Let_def d fa collision_check_def sa)
qed

text \<open>
  Claim C4, amended. A tick with the thrust key down on a lander that has a contact point,
  is not crashed, still has fuel after the tick's life-support drain, and whose engine
  has not failed, with no rock hit in that frame: if the tick returns, the engine is
  on, the lander is neither landed nor crashed, the thrust acceleration along the
  lander's axis has been added to the velocity, the vertical velocity having dropped by
  \<open>|ay * dt|\<close> (upward on the screen); the contact point is cleared if the sprite no
  longer overlaps the terrain in that frame and stays set if it still does.
\<close>

theorem liftoff_during_settlement:
  assumes "contact_screen s = Some p" and "\<not> crashed s" and "K_UP (tick_keys i)"
    and "0 < fuel (life_support (tick_dt i) s)" and "\<not> engine_out s"
    and "\<not> rock_hit (tick_frame i)"
    and "tick topo i s = Inr s'"
  shows "engine_on s' \<and> \<not> landed s' \<and> \<not> crashed s'
       \<and> ax s' = MAX_THRUST * throttle s / mass s' * - sin (radians (angle s'))
       \<and> ay s' = MAX_THRUST * throttle s / mass s' * - cos (radians (angle s'))
       \<and> vx s' = vx s + ax s' * tick_dt i
       \<and> vy s' = vy s - \<bar>ay s' * tick_dt i\<bar>
       \<and> contact_screen s' = (if contact (tick_frame i) = None then None else Some p)"
proof -
  let ?k = "tick_keys i" and ?dt = "tick_dt i"
  let ?r = "rotational ?k ?dt (life_support ?dt s)"
  let ?c = "?r\<lparr>angular_velocity := 0, engine_on := False, ax := 0, ay := 0\<rparr>"
  from assms(7) obtain s1 where up: "update_physics ?k ?dt topo s = Inr s1"
    by (cases "update_physics ?k ?dt topo s") (simp_all add: tick_def)
  from update_physics_liftoff[OF assms(1,2,3,4,5) up]
  have s1: "s1 = liftoff_step ?k ?dt ?c" .
  have f1: "engine_on s1" "\<not> landed s1" "\<not> crashed s1" "contact_screen s1 = Some p"
    "angle s1 = angle ?r"
    using assms(1,2)
    by (simp_all add: s1 liftoff_step_fields liftoff_step_motion rotational_fields
        life_support_fields)
  have m1: "ax s1 = MAX_THRUST * throttle s / mass s1 * - sin (radians (angle s1))"
    "ay s1 = MAX_THRUST * throttle s / mass s1 * - cos (radians (angle s1))"
    "vx s1 = vx s + ax s1 * ?dt" "vy s1 = vy s - \<bar>ay s1 * ?dt\<bar>"
    unfolding s1
    by (simp_all add: liftoff_step_motion liftoff_step_fields rotational_motion_fields
        rotational_more_fields life_support_motion_fields life_support_more_fields)
  let ?off = "compute_camera_offset (x s1)"
  have d: "draw ?off s1 = s1" using f1 by (simp add: draw_def)
  from assms(7) up f1 have cc:
    "collision_check (tick_frame i) ?k topo ?off (tick_special_hit i) s1 = Inr s'"
    by (simp add: tick_def Let_def d)
  note c = collision_check_in_contact[OF assms(6) f1(4) cc]
  have ms: "mass s' = mass s1" by (simp add: mass_def c)
  show ?thesis
    using f1 m1 assms(3) by (simp add: c ms)
qed

theorem liftoff_during_settlement_witness:
  "\<exists>s'. tick (replicate 1875 900)
           \<lparr>tick_keys = \<lparr>K_LEFT = False, K_RIGHT = False, K_UP = True,
                         K_1 = False, K_2 = False, K_3 = False\<rparr>,
            tick_dt = 1 / 60,
            tick_frame = \<lparr>rock_hit = False, rect_left = 468, rect_top = 250,
                          contact = Some (32, 69), now = 1000\<rparr>,
            tick_special_hit = False\<rparr>
           ((Lander_init 64 70)\<lparr>vx := 0, vy := 0, contact_screen := Some (500, 319)\<rparr>)
         = Inr s'
      \<and> engine_on s' \<and> \<not> landed s' \<and> \<not> crashed s'
      \<and> vy s' = 0 - \<bar>ay s' * (1 / 60)\<bar>
      \<and> contact_screen s' = Some (500, 319)"
proof -
  let ?i = "\<lparr>tick_keys = \<lparr>K_LEFT = False, K_RIGHT = False, K_UP = True,
                         K_1 = False, K_2 = False, K_3 = False\<rparr>,
            tick_dt = 1 / 60,
            tick_frame = \<lparr>rock_hit = False, rect_left = 468, rect_top = 250,
                          contact = Some (32, 69), now = 1000\<rparr>,
            tick_special_hit = False\<rparr>"
  let ?s = "(Lander_init 64 70)\<lparr>vx := 0, vy := 0, contact_screen := Some (500, 319)\<rparr>"
  from tick_liftoff_returns obtain s' where t: "tick (replicate 1875 900) ?i ?s = Inr s'"
    by blast
  have h: "contact_screen ?s = Some (500, 319)" "\<not> crashed ?s" "K_UP (tick_keys ?i)"
    "0 < fuel (life_support (tick_dt ?i) ?s)" "\<not> engine_out ?s" "\<not> rock_hit (tick_frame ?i)"
    by (simp_all add: Lander_init_fields life_support_def Let_def BATTERY_DRAIN_RATE_def
        MAX_BATTERY_def)
  from liftoff_during_settlement[OF h t] t show ?thesis by (simp add: Lander_init_fields)
qed

text \<open>
  The lift-off of claim C4 on a lander resting on flat ground with its contact point set,
  not landed, fuel 2000, engine not failed, thrust key down, the sprite still overlapping
  the terrain after the step: the tick returns and the contact point is still set.
\<close>

theorem liftoff_keeps_contact_counterexample:
  "\<not> isl (tick (replicate 1875 900)
           \<lparr>tick_keys = \<lparr>K_LEFT = False, K_RIGHT = False, K_UP = True,
                         K_1 = False, K_2 = False, K_3 = False\<rparr>,
            tick_dt = 1 / 60,
            tick_frame = \<lparr>rock_hit = False, rect_left = 468, rect_top = 250,
                          contact = Some (32, 69), now = 1000\<rparr>,
            tick_special_hit = False\<rparr>
           ((Lander_init 64 70)\<lparr>vx := 0, vy := 0, contact_screen := Some (500, 319)\<rparr>))
   \<and> contact_screen (projr (tick (replicate 1875 900)
           \<lparr>tick_keys = \<lparr>K_LEFT = False, K_RIGHT = False, K_UP = True,
                         K_1 = False, K_2 = False, K_3 = False\<rparr>,
            tick_dt = 1 / 60,
            tick_frame = \<lparr>rock_hit = False, rect_left = 468, rect_top = 250,
                          contact = Some (32, 69), now = 1000\<rparr>,
            tick_special_hit = False\<rparr>
           ((Lander_init 64 70)\<lparr>vx := 0, vy := 0, contact_screen := Some (500, 319)\<rparr>)))
     = Some (500, 319)
   \<and> contact_screen ((Lander_init 64 70)\<lparr>vx := 0, vy := 0, contact_screen := Some (500, 319)\<rparr>)
     = Some (500, 319)
   \<and> \<not> landed ((Lander_init 64 70)\<lparr>vx := 0, vy := 0, contact_screen := Some (500, 319)\<rparr>)
   \<and> 0 < fuel ((Lander_init 64 70)\<lparr>vx := 0, vy := 0, contact_screen := Some (500, 319)\<rparr>)
   \<and> \<not> engine_out ((Lander_init 64 70)\<lparr>vx := 0, vy := 0, contact_screen := Some (500, 319)\<rparr>)"
proof -
  from tick_liftoff_returns obtain s' where
    "tick (replicate 1875 900)
           \<lparr>tick_keys = \<lparr>K_LEFT = False, K_RIGHT = False, K_UP = True,
                         K_1 = False, K_2 = False, K_3 = False\<rparr>,
            tick_dt = 1 / 60,
            tick_frame = \<lparr>rock_hit = False, rect_left = 468, rect_top = 250,
                          contact = Some (32, 69), now = 1000\<rparr>,
            tick_special_hit = False\<rparr>
           ((Lander_init 64 70)\<lparr>vx := 0, vy := 0, contact_screen := Some (500, 319)\<rparr>)
       = Inr s'"
    and "contact_screen s' = Some (500, 319)"
    by blast
  then show ?thesis by (simp add: Lander_init_fields)
qed

section \<open>Altitude queries beyond the terrain\<close>

lemma terrain_height_at_total:
  assumes "topo \<noteq> []"
  shows "\<exists>h. terrain_height_at topo q = Inr h"
proof -
  let ?m = "int (length topo) - 1"
  let ?l = "max 0 (min \<lfloor>q / 8\<rfloor> ?m)" and ?r = "max 0 (min \<lceil>q / 8\<rceil> ?m)"
  have n: "0 < int (length topo)" using assms by simp
  have "0 \<le> ?l" "?l < int (length topo)" "0 \<le> ?r" "?r < int (length topo)"
    using n by (simp_all add: max_def min_def)
  from terrain_height_at_clamped[OF refl refl this] show ?thesis by (cases "?l = ?r") simp_all
qed

lemma altitude_at_result:
  assumes "img_h s \<noteq> 0" and "terrain_height_at topo
       (fst (base_coords s) + (case ro of None \<Rightarrow> fst (base_coords s) | Some r \<Rightarrow> r)) = Inr h"
  shows "altitude_at s topo off ro
           = Inr ((h - snd (base_coords s)) / px_per_m s,
                  (fst (base_coords s) - off
                     + (case ro of None \<Rightarrow> fst (base_coords s) | Some r \<Rightarrow> r), h))"
  using assms by (simp add: altitude_at_def Let_def px_per_m_def LANDER_HEIGHT_M_def)

lemma compute_altitude_out_of_range:
  assumes "\<lfloor>(x s + of_int (img_w s) / 2) / 8\<rfloor> < 0
           \<or> int (length topo) \<le> \<lfloor>(x s + of_int (img_w s) / 2) / 8\<rfloor>"
  shows "compute_altitude s topo rect_bottom = Inr 0"
  using assms
  by (auto simp add: compute_altitude_def Let_def py_floordiv_def py_int_def PIXEL_SIZE_def)


lemma compute_altitude_total:
  assumes "img_h s \<noteq> 0"
  shows "\<exists>a. compute_altitude s topo rect_bottom = Inr a"
  using assms by (simp add: compute_altitude_def Let_def px_per_m_def LANDER_HEIGHT_M_def)

text \<open>
  Claim C8, amended. On a terrain with at least one sample and a sprite of non-zero
  height, neither altitude query raises. \<open>altitude_at\<close> clamps: for a read position left
  of the first sample it measures against the first sample's height, for one right of
  the last sample against the last sample's height. \<open>compute_altitude\<close> does not clamp:
  when the sample index under the lander's centre falls outside the height array it
  returns 0.
\<close>

theorem altitude_queries_out_of_range:
  assumes "topo \<noteq> []" and "img_h s \<noteq> 0"
  shows "(\<forall>off ro. \<exists>a c. altitude_at s topo off ro = Inr (a, c))
       \<and> (\<forall>off ro. fst (base_coords s)
                      + (case ro of None \<Rightarrow> fst (base_coords s) | Some r \<Rightarrow> r) < 0 \<longrightarrow>
            altitude_at s topo off ro
              = Inr ((of_int (hd topo) - snd (base_coords s)) / px_per_m s,
                     (fst (base_coords s) - off
                        + (case ro of None \<Rightarrow> fst (base_coords s) | Some r \<Rightarrow> r),
                      of_int (hd topo))))
       \<and> (\<forall>off ro. of_int PIXEL_SIZE * real (length topo - 1)
                      < fst (base_coords s)
                        + (case ro of None \<Rightarrow> fst (base_coords s) | Some r \<Rightarrow> r) \<longrightarrow>
            altitude_at s topo off ro
              = Inr ((of_int (last topo) - snd (base_coords s)) / px_per_m s,
                     (fst (base_coords s) - off
                        + (case ro of None \<Rightarrow> fst (base_coords s) | Some r \<Rightarrow> r),
                      of_int (last topo))))
       \<and> (\<forall>rect_bottom. \<exists>a. compute_altitude s topo rect_bottom = Inr a)
       \<and> (\<forall>rect_bottom.
             \<lfloor>(x s + of_int (img_w s) / 2) / of_int PIXEL_SIZE\<rfloor> < 0
             \<or> int (length topo) \<le> \<lfloor>(x s + of_int (img_w s) / 2) / of_int PIXEL_SIZE\<rfloor> \<longrightarrow>
            compute_altitude s topo rect_bottom = Inr 0)"
proof (intro conjI allI impI)
  fix off ro
  let ?q = "fst (base_coords s) + (case ro of None \<Rightarrow> fst (base_coords s) | Some r \<Rightarrow> r)"
  from terrain_height_at_total[OF assms(1), of ?q] obtain h
    where "terrain_height_at topo ?q = Inr h" by blast
  from altitude_at_result[OF assms(2) this, of off]
  show "\<exists>a c. altitude_at s topo off ro = Inr (a, c)" by blast
next
  fix off ro
  let ?q = "fst (base_coords s) + (case ro of None \<Rightarrow> fst (base_coords s) | Some r \<Rightarrow> r)"
  assume "?q < 0"
  then have "?q \<le> 0" by simp
  from altitude_at_result[OF assms(2) terrain_height_at_left[OF assms(1) this], of off]
  show "altitude_at s topo off ro
          = Inr ((of_int (hd topo) - snd (base_coords s)) / px_per_m s,
                 (fst (base_coords s) - off
                    + (case ro of None \<Rightarrow> fst (base_coords s) | Some r \<Rightarrow> r),
                  of_int (hd topo)))" .
next
  fix off ro
  let ?q = "fst (base_coords s) + (case ro of None \<Rightarrow> fst (base_coords s) | Some r \<Rightarrow> r)"
  assume "of_int PIXEL_SIZE * real (length topo - 1) < ?q"
  then have "of_int PIXEL_SIZE * real (length topo - 1) \<le> ?q" by (rule less_imp_le)
  from altitude_at_result[OF assms(2) terrain_height_at_right[OF assms(1) this], of off]
  show "altitude_at s topo off ro
          = Inr ((of_int (last topo) - snd (base_coords s)) / px_per_m s,
                 (fst (base_coords s) - off
                    + (case ro of None \<Rightarrow> fst (base_coords s) | Some r \<Rightarrow> r),
                  of_int (last topo)))" .
next
  fix rect_bottom
  show "\<exists>a. compute_altitude s topo rect_bottom = Inr a"
    by (rule compute_altitude_total[OF assms(2)])
next
  fix rect_bottom
  assume "\<lfloor>(x s + of_int (img_w s) / 2) / of_int PIXEL_SIZE\<rfloor> < 0
          \<or> int (length topo) \<le> \<lfloor>(x s + of_int (img_w s) / 2) / of_int PIXEL_SIZE\<rfloor>"
  then have "\<lfloor>(x s + of_int (img_w s) / 2) / 8\<rfloor> < 0
          \<or> int (length topo) \<le> \<lfloor>(x s + of_int (img_w s) / 2) / 8\<rfloor>"
    by (simp add: PIXEL_SIZE_def)
  then show "compute_altitude s topo rect_bottom = Inr 0"
    by (rule compute_altitude_out_of_range)
qed

theorem altitude_queries_out_of_range_witness:
  "altitude_at ((Lander_init 64 70)\<lparr>x := 20000\<rparr>) (replicate 1875 900) 14000 (Some 100)
     = Inr (609 / 10, (6132, 900))
   \<and> altitude_at ((Lander_init 64 70)\<lparr>x := - 5000\<rparr>) (replicate 1875 900) 0 (Some 0)
     = Inr (609 / 10, (- 4968, 900))
   \<and> compute_altitude ((Lander_init 64 70)\<lparr>x := 20000\<rparr>) (replicate 1875 900) 300 = Inr 0"
proof -
  let ?s = "(Lander_init 64 70)\<lparr>x := 20000\<rparr>" and ?t = "(Lander_init 64 70)\<lparr>x := - 5000\<rparr>"
  have ne: "replicate 1875 (900::int) \<noteq> []" by simp
  have h: "img_h ?s \<noteq> 0" "img_h ?t \<noteq> 0" by (simp_all add: Lander_init_fields)
  have b: "base_coords ?s = (20032, 291)" "base_coords ?t = (- 4968, 291)"
    "px_per_m ?s = 10" "px_per_m ?t = 10"
    by (simp_all add: base_coords_def px_per_m_def Lander_init_fields LANDER_HEIGHT_M_def)
  have l: "last (replicate 1875 (900::int)) = 900" "hd (replicate 1875 (900::int)) = 900"
    by (simp_all add: last_replicate hd_replicate)
  note a = altitude_queries_out_of_range[OF ne h(1)]
  note c = altitude_queries_out_of_range[OF ne h(2)]
  have "altitude_at ?s (replicate 1875 900) 14000 (Some 100) = Inr (609 / 10, (6132, 900))"
    using a[THEN conjunct2, THEN conjunct2, THEN conjunct1, rule_format, of "Some 100" 14000]
    by (simp add: b l PIXEL_SIZE_def)
  moreover have "altitude_at ?t (replicate 1875 900) 0 (Some 0) = Inr (609 / 10, (- 4968, 900))"
    using c[THEN conjunct2, THEN conjunct1, rule_format, of "Some 0" 0]
    by (simp add: b l)
  moreover have "compute_altitude ?s (replicate 1875 900) 300 = Inr 0"
  proof -
    have "\<lfloor>(20032::real) / 8\<rfloor> = 2504" by (simp add: floor_eq_iff)
    then show ?thesis
      using a[THEN conjunct2, THEN conjunct2, THEN conjunct2, THEN conjunct2, rule_format, of 300]
      by (simp add: Lander_init_fields PIXEL_SIZE_def)
  qed
  ultimately show ?thesis by simp
qed

text \<open>
  The out-of-range query of claim C8 for \<open>compute_altitude\<close>: a lander beyond the right
  end of a flat terrain of height 900, the sprite's bottom edge at 300. The answer is
  0, while the last sample lies 600 pixels, that is 60 metres, below the sprite.
\<close>

theorem compute_altitude_sentinel_counterexample:
  "compute_altitude ((Lander_init 64 70)\<lparr>x := 20000\<rparr>) (replicate 1875 900) 300 = Inr 0
   \<and> real_of_int (max 0 (last (replicate 1875 900) - 300))
       / px_per_m ((Lander_init 64 70)\<lparr>x := 20000\<rparr>) = 60"
proof -
  have "\<lfloor>(20032::real) / 8\<rfloor> = 2504" by (simp add: floor_eq_iff)
  then have "compute_altitude ((Lander_init 64 70)\<lparr>x := 20000\<rparr>) (replicate 1875 900) 300 = Inr 0"
    by (intro compute_altitude_out_of_range) (simp add: Lander_init_fields)
  moreover have "real_of_int (max 0 (last (replicate 1875 900) - 300))
       / px_per_m ((Lander_init 64 70)\<lparr>x := 20000\<rparr>) = 60"
    by (simp add: last_replicate px_per_m_def Lander_init_fields LANDER_HEIGHT_M_def)
  ultimately show ?thesis by simp
qed

end
